theory Spec2Isabelle
  imports Complex_Main "HOL-Library.Char_ord" "HOL-Library.List_Lexorder"
begin

section \<open>String primitives of the host language\<close>

text \<open>
  Source strings are modelled as \<^typ>\<open>string\<close>; a character stands for one code unit
  below 256. The white space recognised by \<open>trim\<close> and by the regular expression class
  \<open>\s\<close> is, on that range, space, tab, line feed, vertical tab, form feed, carriage
  return and the no-break space. The classes \<open>[A-Z]\<close>, \<open>[a-z]\<close> and \<open>[0-9]\<close> are
  the ASCII ones; \<open>toLowerCase\<close> also maps the accented capitals of that range.
\<close>

definition isSpace :: "char \<Rightarrow> bool" where
  "isSpace c =
     (c \<in> set [CHR '' '', CHR 0x09, CHR 0x0A, CHR 0x0B, CHR 0x0C, CHR 0x0D, CHR 0xA0])"

definition isUpper :: "char \<Rightarrow> bool" where
  "isUpper c = (c \<in> set ''ABCDEFGHIJKLMNOPQRSTUVWXYZ'')"

definition isLower :: "char \<Rightarrow> bool" where
  "isLower c = (c \<in> set ''abcdefghijklmnopqrstuvwxyz'')"

definition isDigit :: "char \<Rightarrow> bool" where
  "isDigit c = (c \<in> set ''0123456789'')"

definition upperCaseChars :: "char list" where
  "upperCaseChars =
     ''ABCDEFGHIJKLMNOPQRSTUVWXYZ'' @
     [CHR 0xC0, CHR 0xC1, CHR 0xC2, CHR 0xC3, CHR 0xC4, CHR 0xC5, CHR 0xC6, CHR 0xC7,
      CHR 0xC8, CHR 0xC9, CHR 0xCA, CHR 0xCB, CHR 0xCC, CHR 0xCD, CHR 0xCE, CHR 0xCF,
      CHR 0xD0, CHR 0xD1, CHR 0xD2, CHR 0xD3, CHR 0xD4, CHR 0xD5, CHR 0xD6, CHR 0xD8,
      CHR 0xD9, CHR 0xDA, CHR 0xDB, CHR 0xDC, CHR 0xDD, CHR 0xDE]"

definition lowerCaseChars :: "char list" where
  "lowerCaseChars =
     ''abcdefghijklmnopqrstuvwxyz'' @
     [CHR 0xE0, CHR 0xE1, CHR 0xE2, CHR 0xE3, CHR 0xE4, CHR 0xE5, CHR 0xE6, CHR 0xE7,
      CHR 0xE8, CHR 0xE9, CHR 0xEA, CHR 0xEB, CHR 0xEC, CHR 0xED, CHR 0xEE, CHR 0xEF,
      CHR 0xF0, CHR 0xF1, CHR 0xF2, CHR 0xF3, CHR 0xF4, CHR 0xF5, CHR 0xF6, CHR 0xF8,
      CHR 0xF9, CHR 0xFA, CHR 0xFB, CHR 0xFC, CHR 0xFD, CHR 0xFE]"

definition toLowerChar :: "char \<Rightarrow> char" where
  "toLowerChar c =
     (case map_of (zip upperCaseChars lowerCaseChars) c of
        Some l \<Rightarrow> l
      | None \<Rightarrow> c)"

definition toLowerCase :: "string \<Rightarrow> string" where
  "toLowerCase s = map toLowerChar s"

text \<open>\<open>s.trim()\<close>: white space removed at both ends.\<close>

definition trim :: "string \<Rightarrow> string" where
  "trim s = rev (dropWhile isSpace (rev (dropWhile isSpace s)))"

text \<open>\<open>s.charAt(i)\<close>: the one-character string at index \<open>i\<close>, the empty string out of range.\<close>

definition charAt :: "string \<Rightarrow> int \<Rightarrow> string" where
  "charAt s i = (if 0 \<le> i \<and> i < int (length s) then [s ! nat i] else [])"

text \<open>\<open>s.slice(b, e)\<close>: negative indices count from the end, both are clamped.\<close>

definition slice :: "'a list \<Rightarrow> int \<Rightarrow> int \<Rightarrow> 'a list" where
  "slice s b e =
     (let n = int (length s);
          from = (if b < 0 then max (n + b) 0 else min b n);
          to = (if e < 0 then max (n + e) 0 else min e n)
      in take (nat (to - from)) (drop (nat from) s))"

text \<open>\<open>s.split(d)\<close> for a one-character separator: the empty string gives one empty piece.\<close>

fun splitOn :: "char \<Rightarrow> string \<Rightarrow> string list" where
  "splitOn d [] = [[]]"
| "splitOn d (c # cs) =
     (if c = d then [] # splitOn d cs
      else (case splitOn d cs of p # ps \<Rightarrow> (c # p) # ps | [] \<Rightarrow> [[c]]))"

text \<open>\<open>s.split(/\s+/)\<close>: every maximal run of white space is one separator.\<close>

function splitWs :: "string \<Rightarrow> string list" where
  "splitWs [] = [[]]"
| "splitWs (c # cs) =
     (if isSpace c then [] # splitWs (dropWhile isSpace cs)
      else (case splitWs cs of p # ps \<Rightarrow> (c # p) # ps | [] \<Rightarrow> [[c]]))"
  by pat_completeness auto
termination
  by (relation "measure length") (auto simp: less_Suc_eq_le length_dropWhile_le)

text \<open>Template interpolation of a non-negative counter: its decimal digits.\<close>

definition digitChar :: "nat \<Rightarrow> char" where
  "digitChar d = ''0123456789'' ! (d mod 10)"

function showNat :: "nat \<Rightarrow> string" where
  "showNat n = (if n < 10 then [digitChar n] else showNat (n div 10) @ [digitChar (n mod 10)])"
  by pat_completeness auto
termination
  by (relation "measure id") auto

declare showNat.simps [simp del]

section \<open>Parser data\<close>

datatype ParsedExpression = ParsedExpression (expr_predicate: string) (expr_args: "Arg list")
  and Arg = StrArg string | ExprArg ParsedExpression

text \<open>A triple's subject and object are either one string or an array of strings.\<close>

datatype StrOrArr = Single string | Multi "string list"

record Triple =
  triple_predicate :: string
  triple_subject :: StrOrArr
  triple_object :: StrOrArr
  triple_isHypergraph :: bool

datatype Severity = SevError | SevWarning

record ParseError =
  err_line :: nat
  err_column :: int
  err_message :: string
  err_severity :: Severity

record ValidationResult =
  vr_isValid :: bool
  vr_errors :: "ParseError list"
  vr_warnings :: "ParseError list"

section \<open>Tokenizer and expression parser\<close>

text \<open>
  \<open>tokenize\<close>: one pass over the characters with the token list, the current token, the
  parenthesis depth and the in-token flag as loop state.
\<close>

fun tokenizeLoop :: "string \<Rightarrow> string list \<Rightarrow> string \<Rightarrow> int \<Rightarrow> bool \<Rightarrow> string list" where
  "tokenizeLoop [] tokens current parenDepth inToken =
     (if trim current \<noteq> [] then tokens @ [trim current] else tokens)"
| "tokenizeLoop (c # cs) tokens current parenDepth inToken =
     (if c = CHR ''('' then tokenizeLoop cs tokens (current @ [c]) (parenDepth + 1) True
      else if c = CHR '')'' then
        (if parenDepth - 1 = 0 \<and> inToken
         then tokenizeLoop cs (tokens @ [trim (current @ [c])]) [] (parenDepth - 1) False
         else tokenizeLoop cs tokens (current @ [c]) (parenDepth - 1) inToken)
      else if c = CHR '' '' \<and> parenDepth = 0 then
        (if trim current \<noteq> [] then tokenizeLoop cs (tokens @ [trim current]) [] parenDepth False
         else tokenizeLoop cs tokens current parenDepth False)
      else tokenizeLoop cs tokens (current @ [c]) parenDepth True)"

definition tokenize :: "string \<Rightarrow> string list" where
  "tokenize content = tokenizeLoop content [] [] 0 False"

definition looksNested :: "string \<Rightarrow> bool" where
  "looksNested token =
     (charAt token 0 = ''('' \<and> charAt token (int (length token) - 1) = '')'')"

text \<open>The length of the longest token of a list: the measure of the recursion below.\<close>

definition maxLength :: "string list \<Rightarrow> nat" where
  "maxLength ts = foldr (\<lambda>t m. max (length t) m) ts 0"

lemma length_trim_le: "length (trim s) \<le> length s"
proof -
  have "length (trim s) \<le> length (rev (dropWhile isSpace s))"
    unfolding trim_def using length_dropWhile_le [of isSpace "rev (dropWhile isSpace s)"] by simp
  also have "\<dots> \<le> length s"
    by (simp add: length_dropWhile_le)
  finally show ?thesis .
qed

lemma tokenizeLoop_length:
  "t \<in> set (tokenizeLoop cs tokens current d b) \<Longrightarrow>
   t \<in> set tokens \<or> length t \<le> length current + length cs"
proof (induction cs arbitrary: tokens current d b)
  case Nil
  then show ?case
    using length_trim_le [of current] by (auto split: if_splits)
next
  case (Cons c cs)
  have tr: "length (trim (current @ [c])) \<le> Suc (length current)"
    using length_trim_le [of "current @ [c]"] by simp
  have tr': "length (trim current) \<le> length current"
    by (rule length_trim_le)
  from Cons.prems show ?case
    using tr tr'
    by (auto split: if_splits dest!: Cons.IH)
qed

lemma tokenize_length: "t \<in> set (tokenize content) \<Longrightarrow> length t \<le> length content"
  using tokenizeLoop_length [of t content "[]" "[]" 0 False] by (simp add: tokenize_def)

lemma maxLength_ge: "t \<in> set ts \<Longrightarrow> length t \<le> maxLength ts"
  by (induction ts) (auto simp: maxLength_def)

lemma maxLength_le: "(\<And>t. t \<in> set ts \<Longrightarrow> length t \<le> n) \<Longrightarrow> maxLength ts \<le> n"
  by (induction ts) (auto simp: maxLength_def)

lemma slice_inner: "slice s 1 (- 1) = butlast (tl s)"
proof (cases s)
  case Nil
  then show ?thesis by (simp add: slice_def)
next
  case (Cons a as)
  then show ?thesis
    by (simp add: slice_def Let_def butlast_conv_take nat_diff_distrib')
qed

lemma length_content_less:
  "trim e \<noteq> [] \<Longrightarrow> length (trim (slice (trim e) 1 (- 1))) < length e"
proof -
  assume ne: "trim e \<noteq> []"
  have "length (trim (slice (trim e) 1 (- 1))) \<le> length (butlast (tl (trim e)))"
    using length_trim_le [of "slice (trim e) 1 (- 1)"] by (simp add: slice_inner)
  also have "\<dots> < length (trim e)"
    using ne by (cases "trim e") auto
  also have "\<dots> \<le> length e"
    by (rule length_trim_le)
  finally show ?thesis .
qed


text \<open>
  \<open>parseExpression\<close> recurses into every token that starts with an opening and ends
  with a closing parenthesis; \<open>parseArgs\<close> is its loop over the tokens after the
  predicate. A nested token that fails to parse is left out of the arguments.
\<close>

function parseExpression :: "string \<Rightarrow> ParsedExpression option"
  and parseArgs :: "string list \<Rightarrow> Arg list" where
  "parseExpression expression =
     (let trimmed = trim expression in
      if charAt trimmed 0 \<noteq> ''('' \<or> charAt trimmed (int (length trimmed) - 1) \<noteq> '')''
      then None
      else
        let content = trim (slice trimmed 1 (- 1));
            tokens = tokenize content
        in if length tokens < 2 then None
           else Some (ParsedExpression (hd tokens) (parseArgs (tl tokens))))"
| "parseArgs [] = []"
| "parseArgs (token # rest) =
     (if looksNested token
      then (case parseExpression token of
              Some nested \<Rightarrow> ExprArg nested # parseArgs rest
            | None \<Rightarrow> parseArgs rest)
      else StrArg token # parseArgs rest)"
  by pat_completeness auto
termination
proof (relation "measures [\<lambda>x. case x of Inl e \<Rightarrow> 2 * length e | Inr ts \<Rightarrow> 2 * maxLength ts + 1,
                           \<lambda>x. case x of Inl e \<Rightarrow> 0 | Inr ts \<Rightarrow> length ts]", goal_cases)
  case 1
  show ?case by simp
next
  case (2 expression trimmed content tokens)
  have ne: "trim expression \<noteq> []"
    using 2 by (auto simp: charAt_def)
  have "maxLength (tl tokens) \<le> length content"
  proof (rule maxLength_le)
    fix t assume "t \<in> set (tl tokens)"
    then have "t \<in> set (tokenize content)"
      using 2 by (auto dest: list.set_sel(2) [rotated])
    then show "length t \<le> length content"
      by (rule tokenize_length)
  qed
  moreover have "length content < length expression"
    using length_content_less [OF ne] 2 by simp
  ultimately show ?case by simp
next
  case (3 token rest)
  have "length token \<le> maxLength (token # rest)"
    by (rule maxLength_ge) simp
  then show ?case by simp
next
  case (4 token rest)
  have "maxLength rest \<le> maxLength (token # rest)"
    by (simp add: maxLength_def)
  then show ?case by auto
next
  case (5 token rest)
  have "maxLength rest \<le> maxLength (token # rest)"
    by (simp add: maxLength_def)
  then show ?case by auto
next
  case (6 token rest)
  have "maxLength rest \<le> maxLength (token # rest)"
    by (simp add: maxLength_def)
  then show ?case by auto
qed

section \<open>Triple extraction\<close>

definition isExprArg :: "Arg \<Rightarrow> bool" where
  "isExprArg a = (case a of ExprArg _ \<Rightarrow> True | StrArg _ \<Rightarrow> False)"

text \<open>The string arguments of an argument list, in order.\<close>

definition stringArgsOf :: "Arg list \<Rightarrow> string list" where
  "stringArgsOf as = concat (map (\<lambda>a. case a of StrArg s \<Rightarrow> [s] | ExprArg _ \<Rightarrow> []) as)"

text \<open>
  What a hypergraph expression pushes to \<open>objects\<close>: for every nested argument its
  predicate, then its own string arguments.
\<close>

definition nestedObjectsOf :: "Arg list \<Rightarrow> string list" where
  "nestedObjectsOf as =
     concat (map (\<lambda>a. case a of
                         StrArg _ \<Rightarrow> []
                       | ExprArg parsedArg \<Rightarrow>
                           expr_predicate parsedArg # stringArgsOf (expr_args parsedArg)) as)"

definition scalarOrArray :: "string list \<Rightarrow> StrOrArr" where
  "scalarOrArray xs = (if length xs = 1 then Single (hd xs) else Multi xs)"

definition expressionToTriple :: "ParsedExpression \<Rightarrow> Triple option" where
  "expressionToTriple parsed =
     (let predicate = expr_predicate parsed; args = expr_args parsed;
          hasNestedExpressions = list_ex isExprArg args
      in if hasNestedExpressions then
           (let subjects = stringArgsOf args; objects = nestedObjectsOf args
            in Some \<lparr>triple_predicate = predicate,
                     triple_subject = scalarOrArray subjects,
                     triple_object = scalarOrArray objects,
                     triple_isHypergraph = True\<rparr>)
         else
           (let stringArgs = stringArgsOf args
            in if length stringArgs \<ge> 2 then
                 Some \<lparr>triple_predicate = predicate,
                       triple_subject = Single (stringArgs ! 0),
                       triple_object =
                         (if length (drop 1 stringArgs) = 1 then Single (stringArgs ! 1)
                          else Multi (drop 1 stringArgs)),
                       triple_isHypergraph = False\<rparr>
               else None))"

text \<open>A line is skipped when it is blank after trimming or starts with a semicolon.\<close>

definition skippedLine :: "string \<Rightarrow> bool" where
  "skippedLine trimmedLine = (trimmedLine = [] \<or> charAt trimmedLine 0 = '';'')"

text \<open>The loop of \<open>extractTriples\<close> over the lines.\<close>

fun extractLoop :: "string list \<Rightarrow> Triple list \<Rightarrow> Triple list" where
  "extractLoop [] triples = triples"
| "extractLoop (line # lines) triples =
     (let trimmedLine = trim line in
      if skippedLine trimmedLine then extractLoop lines triples
      else (case parseExpression trimmedLine of
              None \<Rightarrow> extractLoop lines triples
            | Some parsed \<Rightarrow>
                (case expressionToTriple parsed of
                   None \<Rightarrow> extractLoop lines triples
                 | Some triple \<Rightarrow> extractLoop lines (triples @ [triple]))))"

definition extractTriples :: "string \<Rightarrow> Triple list" where
  "extractTriples mettaText = extractLoop (splitOn CHR 0x0A mettaText) []"

section \<open>Syntax validation\<close>

text \<open>
  \<open>levenshteinDistance\<close> fills a matrix row by row; \<open>levRow\<close> computes the cells of
  one row after its first from the previous row, \<open>levRows\<close> iterates over the characters of
  the second string, and the result is the last cell of the last row.
\<close>

fun levRow :: "char \<Rightarrow> string \<Rightarrow> nat list \<Rightarrow> nat \<Rightarrow> nat list" where
  "levRow c2 (c1 # s1) (diag # up # prevRow) left =
     (let indicator = (if c1 = c2 then 0 else 1);
          v = min (min (left + 1) (up + 1)) (diag + indicator)
      in v # levRow c2 s1 (up # prevRow) v)"
| "levRow c2 _ _ left = []"

fun levRows :: "string \<Rightarrow> string \<Rightarrow> nat \<Rightarrow> nat list \<Rightarrow> nat list" where
  "levRows str1 [] j prevRow = prevRow"
| "levRows str1 (c2 # s2) j prevRow = levRows str1 s2 (j + 1) (j # levRow c2 str1 prevRow j)"

definition levenshteinDistance :: "string \<Rightarrow> string \<Rightarrow> nat" where
  "levenshteinDistance str1 str2 = last (levRows str1 str2 1 [0 ..< length str1 + 1])"

definition commonPredicates :: "string list" where
  "commonPredicates = [''gender'', ''is-parent'', ''is-brother'', ''is-sister'', ''age'', ''name'']"

definition enclosedError :: "nat \<Rightarrow> ParseError" where
  "enclosedError i =
     \<lparr>err_line = i + 1, err_column = 0,
      err_message = ''Expression must be enclosed in parentheses'', err_severity = SevError\<rparr>"

definition closingError :: "nat \<Rightarrow> int \<Rightarrow> ParseError" where
  "closingError i col =
     \<lparr>err_line = i + 1, err_column = col,
      err_message = ''Unmatched closing parenthesis'', err_severity = SevError\<rparr>"

definition openingError :: "nat \<Rightarrow> int \<Rightarrow> ParseError" where
  "openingError i col =
     \<lparr>err_line = i + 1, err_column = col,
      err_message = ''Unmatched opening parenthesis'', err_severity = SevError\<rparr>"

definition minContentError :: "nat \<Rightarrow> ParseError" where
  "minContentError i =
     \<lparr>err_line = i + 1, err_column = 1,
      err_message = ''Expression must have at least a predicate and one argument'',
      err_severity = SevError\<rparr>"

definition typoWarning :: "nat \<Rightarrow> string \<Rightarrow> string \<Rightarrow> ParseError" where
  "typoWarning i similarPredicate predicate =
     \<lparr>err_line = i + 1, err_column = 1,
      err_message = ''Did you mean '' @ [CHR 0x22] @ similarPredicate @ [CHR 0x22]
                      @ ''? Found '' @ [CHR 0x22] @ predicate @ [CHR 0x22],
      err_severity = SevWarning\<rparr>"

text \<open>
  The inner scan of a line at column \<open>j\<close>: the result is the final \<open>parenCount\<close>, the
  final \<open>lastOpenParen\<close> and, when the loop was left by \<open>break\<close>, the reported column of
  the unmatched closing parenthesis.
\<close>

fun parenScan :: "string \<Rightarrow> int \<Rightarrow> int \<Rightarrow> int \<Rightarrow> int \<times> int \<times> int option" where
  "parenScan [] j parenCount lastOpenParen = (parenCount, lastOpenParen, None)"
| "parenScan (c # cs) j parenCount lastOpenParen =
     (if c = CHR ''('' then parenScan cs (j + 1) (parenCount + 1) j
      else if c = CHR '')'' then
        (if parenCount - 1 < 0 then (parenCount - 1, lastOpenParen, Some (j + 1))
         else parenScan cs (j + 1) (parenCount - 1) lastOpenParen)
      else parenScan cs (j + 1) parenCount lastOpenParen)"

text \<open>The first common predicate at edit distance exactly one of the lower-cased predicate.\<close>

definition similarPredicateOf :: "string \<Rightarrow> string option" where
  "similarPredicateOf predicate =
     find (\<lambda>cp. levenshteinDistance (toLowerCase predicate) cp = 1) commonPredicates"

text \<open>The body of the loop over the lines, for the line at index \<open>i\<close>.\<close>

definition validateLine ::
  "nat \<Rightarrow> string \<Rightarrow> ParseError list \<times> ParseError list \<Rightarrow> ParseError list \<times> ParseError list" where
  "validateLine i rawLine acc =
     (let errs = fst acc; warns = snd acc; line = trim rawLine in
      if skippedLine line then (errs, warns)
      else
        let hasOpenParen = (charAt line 0 = ''('');
            hasCloseParen = (charAt line (int (length line) - 1) = '')'')
        in if \<not> hasOpenParen \<or> (\<not> hasCloseParen \<and> \<not> hasOpenParen)
           then (errs @ [enclosedError i], warns)
           else
             let scan = parenScan line 0 0 (- 1);
                 parenCount = fst scan;
                 lastOpenParen = fst (snd scan);
                 closing = snd (snd scan);
                 errs1 = (case closing of Some col \<Rightarrow> errs @ [closingError i col] | None \<Rightarrow> errs);
                 errs2 = (if parenCount > 0 then errs1 @ [openingError i (lastOpenParen + 1)]
                          else errs1);
                 hasUnbalancedParens = (closing \<noteq> None \<or> parenCount > 0)
             in if hasUnbalancedParens then (errs2, warns)
                else if \<not> hasUnbalancedParens \<and> length line > 2 then
                  (let content = trim (slice line 1 (- 1));
                       parts = splitWs content;
                       errs3 = (if length parts < 2 then errs2 @ [minContentError i] else errs2);
                       warns1 =
                         (if length parts \<ge> 2 then
                            (let predicate = parts ! 0 in
                             case similarPredicateOf predicate of
                               Some similarPredicate \<Rightarrow>
                                 if predicate \<noteq> similarPredicate
                                 then warns @ [typoWarning i similarPredicate predicate]
                                 else warns
                             | None \<Rightarrow> warns)
                          else warns)
                   in (errs3, warns1))
                else (errs2, warns))"

fun validateLoop ::
  "nat \<Rightarrow> string list \<Rightarrow> ParseError list \<times> ParseError list \<Rightarrow> ParseError list \<times> ParseError list" where
  "validateLoop i [] acc = acc"
| "validateLoop i (rawLine # rest) acc = validateLoop (i + 1) rest (validateLine i rawLine acc)"

definition validateSyntax :: "string \<Rightarrow> ValidationResult" where
  "validateSyntax mettaText =
     (let res = validateLoop 0 (splitOn CHR 0x0A mettaText) ([], [])
      in \<lparr>vr_isValid = (length (fst res) = 0), vr_errors = fst res, vr_warnings = snd res\<rparr>)"

section \<open>Graph data\<close>

text \<open>
  Coordinates, sizes and time stamps are \<^typ>\<open>real\<close> numbers: rounding of the
  host language's floating point numbers is not modelled.
\<close>

record Point =
  pt_x :: real
  pt_y :: real

datatype NodeType = Entity | Predicate | Value | Hypergraph

datatype EdgeType = Relation | HypergraphConnection

record NodeMetadata =
  md_originalExpression :: "string option"
  md_occurrences :: "nat option"
  md_isGenerated :: "bool option"

record GraphNode =
  node_id :: string
  node_label :: string
  node_type :: NodeType
  node_position :: Point
  node_color :: "string option"
  node_size :: "real option"
  node_isHypergraph :: "bool option"
  node_metadata :: NodeMetadata

record GraphEdge =
  edge_id :: string
  edge_source :: string
  edge_target :: string
  edge_label :: string
  edge_directed :: bool
  edge_type :: EdgeType
  edge_color :: "string option"
  edge_weight :: "real option"

record HypergraphStructure =
  hg_id :: string
  hg_predicate :: string
  hg_subjects :: "string list"
  hg_objects :: "string list"
  hg_intermediateNodeId :: "string option"

record GraphMetadata =
  gm_nodeCount :: nat
  gm_edgeCount :: nat
  gm_hypergraphCount :: nat
  gm_lastUpdated :: real

record GraphData =
  gd_nodes :: "GraphNode list"
  gd_edges :: "GraphEdge list"
  gd_hypergraphs :: "HypergraphStructure list"
  gd_metadata :: GraphMetadata

record ParseResult =
  pr_nodes :: "GraphNode list"
  pr_edges :: "GraphEdge list"
  pr_errors :: "ParseError list"
  pr_metadata :: GraphMetadata

section \<open>Node utilities\<close>

text \<open>\<open>replace(/-+/g, '-')\<close>: every maximal run of hyphens becomes one hyphen.\<close>

function collapseHyphens :: "string \<Rightarrow> string" where
  "collapseHyphens [] = []"
| "collapseHyphens (c # cs) =
     (if c = CHR ''-'' then CHR ''-'' # collapseHyphens (dropWhile (\<lambda>d. d = CHR ''-'') cs)
      else c # collapseHyphens cs)"
  by pat_completeness auto
termination
  by (relation "measure length") (auto simp: less_Suc_eq_le length_dropWhile_le)

text \<open>\<open>replace(/^-|-$/g, '')\<close>: one hyphen less at the start and one less at the end.\<close>

definition stripHyphenEnds :: "string \<Rightarrow> string" where
  "stripHyphenEnds s =
     (let s1 = (if s \<noteq> [] \<and> hd s = CHR ''-'' then tl s else s)
      in if s1 \<noteq> [] \<and> last s1 = CHR ''-'' then butlast s1 else s1)"

definition generateNodeId :: "string \<Rightarrow> string" where
  "generateNodeId label =
     stripHyphenEnds (collapseHyphens
       (map (\<lambda>c. if isLower c \<or> isDigit c then c else CHR ''-'') (toLowerCase label)))"

text \<open>
  \<open>hash << 5\<close> works on the 32-bit two's complement value of \<open>hash\<close>; the subtraction
  and the addition around it are on unbounded numbers.
\<close>

definition toInt32 :: "int \<Rightarrow> int" where
  "toInt32 h = (let m = h mod 2 ^ 32 in if m \<ge> 2 ^ 31 then m - 2 ^ 32 else m)"

definition hashStep :: "int \<Rightarrow> char \<Rightarrow> int" where
  "hashStep hash c = of_char c + (toInt32 (hash * 32) - hash)"

definition labelHash :: "string \<Rightarrow> int" where
  "labelHash label = foldl hashStep 0 label"

definition getNodeColor :: "string \<Rightarrow> string" where
  "getNodeColor label =
     ''hsla('' @ showNat (nat (\<bar>labelHash label\<bar> mod 360)) @ '', 65%, 70%, 0.7)''"

definition getEdgeColor :: "string \<Rightarrow> string" where
  "getEdgeColor predicate =
     ''hsla('' @ showNat (nat ((\<bar>labelHash predicate\<bar> + 180) mod 360)) @ '', 60%, 65%, 0.6)''"

text \<open>The search of \<open>createOrUpdateNode\<close> for the first node with the given id.\<close>

fun findNodeIndex :: "GraphNode list \<Rightarrow> string \<Rightarrow> nat \<Rightarrow> nat option" where
  "findNodeIndex [] nodeId i = None"
| "findNodeIndex (n # ns) nodeId i =
     (if node_id n = nodeId then Some i else findNodeIndex ns nodeId (i + 1))"

definition bumpOccurrences :: "GraphNode \<Rightarrow> GraphNode" where
  "bumpOccurrences n =
     n\<lparr>node_metadata := (node_metadata n)
          \<lparr>md_occurrences :=
             Some ((case md_occurrences (node_metadata n) of Some k \<Rightarrow> k | None \<Rightarrow> 0) + 1)\<rparr>\<rparr>"

definition newEntityNode :: "string \<Rightarrow> string \<Rightarrow> Point option \<Rightarrow> GraphNode" where
  "newEntityNode nodeId label position =
     \<lparr>node_id = nodeId, node_label = label, node_type = Entity,
      node_position = (case position of Some p \<Rightarrow> p | None \<Rightarrow> \<lparr>pt_x = 0, pt_y = 0\<rparr>),
      node_color = None, node_size = None, node_isHypergraph = None,
      node_metadata = \<lparr>md_originalExpression = None, md_occurrences = Some 1,
                        md_isGenerated = None\<rparr>\<rparr>"

text \<open>
  \<open>createOrUpdateNode\<close> mutates the node array and returns a reference into it. The
  model returns the new array and the index of the referenced node: nodes are only ever
  appended, so an index keeps denoting the same object.
\<close>

definition createOrUpdateNode ::
  "GraphNode list \<Rightarrow> string \<Rightarrow> Point option \<Rightarrow> GraphNode list \<times> nat" where
  "createOrUpdateNode nodes label position =
     (let nodeId = generateNodeId label in
      case findNodeIndex nodes nodeId 0 of
        Some k \<Rightarrow> (nodes[k := bumpOccurrences (nodes ! k)], k)
      | None \<Rightarrow> (nodes @ [newEntityNode nodeId label position], length nodes))"

section \<open>Graph transformer\<close>

text \<open>
  The transformer object. Its other field, \<open>bidirectionalEdges\<close>, is never read or
  written and is left out.
\<close>

record GraphTransformerImpl =
  gt_hypergraphCounter :: nat

definition toArray :: "StrOrArr \<Rightarrow> string list" where
  "toArray v = (case v of Single s \<Rightarrow> [s] | Multi xs \<Rightarrow> xs)"

text \<open>
  \<open>labels.map((label, i) => createOrUpdateNode(nodes, label, place i))\<close>, the node
  array threaded through the calls; the result lists the referenced nodes in order.
\<close>

fun createNodes ::
  "string list \<Rightarrow> (nat \<Rightarrow> Point) \<Rightarrow> nat \<Rightarrow> GraphNode list \<Rightarrow> GraphNode list \<times> nat list" where
  "createNodes [] place i nodes = (nodes, [])"
| "createNodes (label # labels) place i nodes =
     (let r = createOrUpdateNode nodes label (Some (place i));
          rest = createNodes labels place (i + 1) (fst r)
      in (fst rest, snd r # snd rest))"

definition isCapitalizedWord :: "string \<Rightarrow> bool" where
  "isCapitalizedWord label =
     (case label of [] \<Rightarrow> False | c # cs \<Rightarrow> isUpper c \<and> cs \<noteq> [] \<and> list_all isLower cs)"

definition determineNodeType :: "string \<Rightarrow> string \<Rightarrow> NodeType" where
  "determineNodeType label predicate =
     (if isCapitalizedWord label then Entity
      else if (label \<noteq> [] \<and> list_all isDigit label) \<or> label = ''M'' \<or> label = ''F''
              \<or> toLowerCase label = ''true'' \<or> toLowerCase label = ''false''
      then Value
      else if predicate = label then Predicate
      else Entity)"

text \<open>An optional string counts as false when it is absent or empty.\<close>

definition falsyString :: "string option \<Rightarrow> bool" where
  "falsyString v = (case v of None \<Rightarrow> True | Some s \<Rightarrow> s = [])"

text \<open>
  The body of \<open>setNodeProperties\<close> for one node; a node always has a type, so the
  test \<open>!node.type\<close> is false. \<open>setNodeProperties\<close> runs it on the referenced nodes
  in order.
\<close>

definition setNodeProperty :: "string \<Rightarrow> GraphNode \<Rightarrow> GraphNode" where
  "setNodeProperty predicate node =
     (let node1 = (if falsyString (node_color node)
                   then node\<lparr>node_color := Some (getNodeColor (node_label node))\<rparr> else node)
      in if node_type node1 = Entity
         then node1\<lparr>node_type := determineNodeType (node_label node1) predicate\<rparr>
         else node1)"

fun setNodeProperties :: "nat list \<Rightarrow> string \<Rightarrow> GraphNode list \<Rightarrow> GraphNode list" where
  "setNodeProperties [] predicate nodes = nodes"
| "setNodeProperties (k # ks) predicate nodes =
     setNodeProperties ks predicate (nodes[k := setNodeProperty predicate (nodes ! k)])"

definition edgeExists :: "GraphEdge list \<Rightarrow> string \<Rightarrow> bool" where
  "edgeExists edges edgeId = list_ex (\<lambda>edge. edge_id edge = edgeId) edges"

definition relationEdge :: "string \<Rightarrow> string \<Rightarrow> string \<Rightarrow> string \<Rightarrow> GraphEdge" where
  "relationEdge edgeId src tgt predicate =
     \<lparr>edge_id = edgeId, edge_source = src, edge_target = tgt, edge_label = predicate,
      edge_directed = True, edge_type = Relation,
      edge_color = Some (getEdgeColor predicate), edge_weight = None\<rparr>"

definition connectionEdge :: "string \<Rightarrow> string \<Rightarrow> string \<Rightarrow> string \<Rightarrow> GraphEdge" where
  "connectionEdge edgeId src tgt predicate =
     \<lparr>edge_id = edgeId, edge_source = src, edge_target = tgt, edge_label = predicate,
      edge_directed = False, edge_type = HypergraphConnection,
      edge_color = Some (getEdgeColor predicate), edge_weight = None\<rparr>"

text \<open>
  \<open>createEdgesBetweenNodes\<close>: the inner loop over the targets for one source, and the
  outer loop over the sources; both work on the ids of the referenced nodes.
\<close>

fun edgesToTargets :: "string \<Rightarrow> string list \<Rightarrow> string \<Rightarrow> GraphEdge list \<Rightarrow> GraphEdge list" where
  "edgesToTargets src [] predicate edges = edges"
| "edgesToTargets src (tgt # tgts) predicate edges =
     (let edgeId = predicate @ ''-'' @ src @ ''-'' @ tgt
      in edgesToTargets src tgts predicate
           (if \<not> edgeExists edges edgeId
            then edges @ [relationEdge edgeId src tgt predicate] else edges))"

fun edgesFromSources :: "string list \<Rightarrow> string list \<Rightarrow> string \<Rightarrow> GraphEdge list \<Rightarrow> GraphEdge list" where
  "edgesFromSources [] tgts predicate edges = edges"
| "edgesFromSources (src # srcs) tgts predicate edges =
     edgesFromSources srcs tgts predicate (edgesToTargets src tgts predicate edges)"

definition createEdgesBetweenNodes ::
  "nat list \<Rightarrow> nat list \<Rightarrow> Triple \<Rightarrow> GraphNode list \<Rightarrow> GraphEdge list \<Rightarrow> GraphEdge list" where
  "createEdgesBetweenNodes sourceNodes targetNodes triple nodes edges =
     edgesFromSources (map (\<lambda>k. node_id (nodes ! k)) sourceNodes)
       (map (\<lambda>k. node_id (nodes ! k)) targetNodes) (triple_predicate triple) edges"

fun createHypergraphConnections ::
  "string list \<Rightarrow> string \<Rightarrow> string \<Rightarrow> GraphEdge list \<Rightarrow> GraphEdge list" where
  "createHypergraphConnections [] intermediateId predicate edges = edges"
| "createHypergraphConnections (entityId # entityIds) intermediateId predicate edges =
     (let edgeId = predicate @ ''-'' @ entityId @ ''-'' @ intermediateId
      in createHypergraphConnections entityIds intermediateId predicate
           (if \<not> edgeExists edges edgeId
            then edges @ [connectionEdge edgeId entityId intermediateId predicate] else edges))"

definition createIntermediateNode :: "string \<Rightarrow> nat \<Rightarrow> Point \<Rightarrow> GraphNode" where
  "createIntermediateNode predicate counter position =
     \<lparr>node_id = predicate @ ''-group-'' @ showNat counter,
      node_label = predicate @ '' group'',
      node_type = Hypergraph,
      node_position = position,
      node_color = Some (getNodeColor predicate),
      node_size = Some (12 / 10),
      node_isHypergraph = Some True,
      node_metadata = \<lparr>md_originalExpression = Some (predicate @ '' hypergraph''),
                        md_occurrences = Some 1, md_isGenerated = Some True\<rparr>\<rparr>"

definition createHypergraphStructures ::
  "GraphTransformerImpl \<Rightarrow> Triple \<Rightarrow> HypergraphStructure list \<times> GraphTransformerImpl" where
  "createHypergraphStructures this triple =
     (let subjects = toArray (triple_subject triple);
          objects = toArray (triple_object triple);
          counter = gt_hypergraphCounter this + 1
      in ([\<lparr>hg_id = ''hypergraph-'' @ showNat counter,
             hg_predicate = triple_predicate triple,
             hg_subjects = subjects,
             hg_objects = objects,
             hg_intermediateNodeId =
               Some (triple_predicate triple @ ''-group-'' @ showNat counter)\<rparr>],
          this\<lparr>gt_hypergraphCounter := counter\<rparr>))"

definition processSimpleTriple ::
  "Triple \<Rightarrow> GraphNode list \<Rightarrow> GraphEdge list \<Rightarrow> nat \<Rightarrow> GraphNode list \<times> GraphEdge list" where
  "processSimpleTriple triple nodes edges index =
     (let subjects = toArray (triple_subject triple);
          objects = toArray (triple_object triple);
          s = createNodes subjects
                (\<lambda>i. \<lparr>pt_x = real i * 120 - (real (length subjects) - 1) * 60,
                       pt_y = real index * 100\<rparr>) 0 nodes;
          subjectNodes = snd s;
          ob = createNodes objects
                (\<lambda>i. \<lparr>pt_x = (real (length subjects) + real i) * 120
                                - (real (length subjects) - 1) * 60,
                       pt_y = real index * 100\<rparr>) 0 (fst s);
          objectNodes = snd ob;
          nodes1 = setNodeProperties (subjectNodes @ objectNodes) (triple_predicate triple) (fst ob)
      in (nodes1, createEdgesBetweenNodes subjectNodes objectNodes triple nodes1 edges))"

definition lastOption :: "'a list \<Rightarrow> 'a option" where
  "lastOption xs = (if xs = [] then None else Some (last xs))"

definition processHypergraphTriple ::
  "GraphTransformerImpl \<Rightarrow> Triple \<Rightarrow> GraphNode list \<Rightarrow> GraphEdge list \<Rightarrow>
   HypergraphStructure list \<Rightarrow> nat \<Rightarrow> GraphNode list \<times> GraphEdge list" where
  "processHypergraphTriple this triple nodes edges hypergraphs index =
     (let subjects = toArray (triple_subject triple);
          objects = toArray (triple_object triple);
          allEntities = subjects @ objects;
          centerX = 0;
          centerY = real index * 150;
          radius = max 80 (real (length allEntities) * 20);
          en = createNodes allEntities
                 (\<lambda>i. let angle = (2 * pi * real i) / real (length allEntities)
                       in \<lparr>pt_x = centerX + radius * cos angle,
                           pt_y = centerY + radius * sin angle\<rparr>) 0 nodes;
          entityNodes = snd en;
          connected =
            (case lastOption hypergraphs of
               None \<Rightarrow> (fst en, edges)
             | Some hypergraph \<Rightarrow>
                 if \<not> falsyString (hg_intermediateNodeId hypergraph) then
                   (let intermediateNode =
                          createIntermediateNode (triple_predicate triple)
                            (gt_hypergraphCounter this) \<lparr>pt_x = centerX, pt_y = centerY\<rparr>;
                        nodes1 = fst en @ [intermediateNode]
                    in (nodes1,
                        createHypergraphConnections (map (\<lambda>k. node_id (nodes1 ! k)) entityNodes)
                          (node_id intermediateNode) (triple_predicate triple) edges))
                 else (fst en, edges))
      in (setNodeProperties entityNodes (triple_predicate triple) (fst connected), snd connected))"

text \<open>
  \<open>detectBidirectionalRelationships\<close>, first pass: the pair keys collected in
  \<open>bidirectionalPairs\<close>; of \<open>edgeMap\<close> only the keys matter. Nothing reads the
  pairs afterwards. The two keys of a pair are sorted by code units.
\<close>

definition forwardKey :: "GraphEdge \<Rightarrow> string" where
  "forwardKey edge = edge_source edge @ ''-'' @ edge_target edge @ ''-'' @ edge_label edge"

definition reverseKey :: "GraphEdge \<Rightarrow> string" where
  "reverseKey edge = edge_target edge @ ''-'' @ edge_source edge @ ''-'' @ edge_label edge"

definition pairKey :: "GraphEdge \<Rightarrow> string" where
  "pairKey edge =
     (if reverseKey edge < forwardKey edge
      then reverseKey edge @ ''|'' @ forwardKey edge
      else forwardKey edge @ ''|'' @ reverseKey edge)"

fun collectPairs :: "GraphEdge list \<Rightarrow> string set \<Rightarrow> string set \<Rightarrow> string set" where
  "collectPairs [] edgeMapKeys bidirectionalPairs = bidirectionalPairs"
| "collectPairs (edge # edges) edgeMapKeys bidirectionalPairs =
     (let keys = insert (forwardKey edge) edgeMapKeys
      in collectPairs edges keys
           (if reverseKey edge \<in> keys then insert (pairKey edge) bidirectionalPairs
            else bidirectionalPairs))"

text \<open>Second pass: an edge is kept unless its forward key has been seen before.\<close>

fun keepEdges :: "GraphEdge list \<Rightarrow> GraphEdge list \<Rightarrow> string set \<Rightarrow> GraphEdge list" where
  "keepEdges [] processedEdges processedEdgeIds = processedEdges"
| "keepEdges (edge # edges) processedEdges processedEdgeIds =
     (if forwardKey edge \<notin> processedEdgeIds
      then keepEdges edges (processedEdges @ [edge]) (insert (forwardKey edge) processedEdgeIds)
      else keepEdges edges processedEdges processedEdgeIds)"

definition detectBidirectionalRelationships :: "GraphEdge list \<Rightarrow> GraphEdge list" where
  "detectBidirectionalRelationships edges = keepEdges edges [] {}"

definition createGraphMetadata ::
  "real \<Rightarrow> GraphNode list \<Rightarrow> GraphEdge list \<Rightarrow> HypergraphStructure list \<Rightarrow> GraphMetadata" where
  "createGraphMetadata now nodes edges hypergraphs =
     \<lparr>gm_nodeCount = length nodes, gm_edgeCount = length edges,
      gm_hypergraphCount = length hypergraphs, gm_lastUpdated = now\<rparr>"

text \<open>
  The loop of \<open>transformTriplestoGraph\<close> over the triples, from index \<open>index\<close>, with
  the transformer (its counter), the nodes, the edges and the hypergraph records as state.
\<close>

fun transformLoop ::
  "Triple list \<Rightarrow> nat \<Rightarrow> GraphTransformerImpl \<Rightarrow> GraphNode list \<Rightarrow> GraphEdge list \<Rightarrow>
   HypergraphStructure list \<Rightarrow>
   GraphTransformerImpl \<times> GraphNode list \<times> GraphEdge list \<times> HypergraphStructure list" where
  "transformLoop [] index this nodes edges hypergraphs = (this, nodes, edges, hypergraphs)"
| "transformLoop (triple # triples) index this nodes edges hypergraphs =
     (if triple_isHypergraph triple then
        (let hs = createHypergraphStructures this triple;
             this1 = snd hs;
             hypergraphs1 = hypergraphs @ fst hs;
             r = processHypergraphTriple this1 triple nodes edges hypergraphs1 index
         in transformLoop triples (index + 1) this1 (fst r) (snd r) hypergraphs1)
      else
        (let r = processSimpleTriple triple nodes edges index
         in transformLoop triples (index + 1) this (fst r) (snd r) hypergraphs))"

text \<open>
  \<open>transformTriplestoGraph\<close>; \<open>now\<close> is the clock reading taken for
  \<open>lastUpdated\<close>. The transformer is returned with its counter as the call left it.
\<close>

definition transformTriplestoGraph ::
  "real \<Rightarrow> GraphTransformerImpl \<Rightarrow> Triple list \<Rightarrow> GraphData \<times> GraphTransformerImpl" where
  "transformTriplestoGraph now this triples =
     (let r = transformLoop triples 0 this [] [] [];
          nodes = fst (snd r);
          edges = fst (snd (snd r));
          hypergraphs = snd (snd (snd r));
          processedEdges = detectBidirectionalRelationships edges
      in (\<lparr>gd_nodes = nodes, gd_edges = processedEdges, gd_hypergraphs = hypergraphs,
           gd_metadata = createGraphMetadata now nodes processedEdges hypergraphs\<rparr>,
          fst r))"

section \<open>The parser object\<close>

record MettaParserImpl =
  mp_hypergraphCounter :: nat
  mp_graphTransformer :: GraphTransformerImpl

definition newMettaParserImpl :: MettaParserImpl where
  "newMettaParserImpl =
     \<lparr>mp_hypergraphCounter = 0, mp_graphTransformer = \<lparr>gt_hypergraphCounter = 0\<rparr>\<rparr>"

text \<open>
  \<open>parse\<close> returns its result together with the parser as the call left it: the
  transformer inside it has counted the hypergraph facts of the text.
\<close>

definition parse :: "real \<Rightarrow> MettaParserImpl \<Rightarrow> string \<Rightarrow> ParseResult \<times> MettaParserImpl" where
  "parse now this mettaText =
     (let validation = validateSyntax mettaText;
          errors = vr_errors validation @ vr_warnings validation;
          triples = extractTriples mettaText;
          g = transformTriplestoGraph now (mp_graphTransformer this) triples;
          graphData = fst g
      in (\<lparr>pr_nodes = gd_nodes graphData, pr_edges = gd_edges graphData,
           pr_errors = errors, pr_metadata = gd_metadata graphData\<rparr>,
          this\<lparr>mp_graphTransformer := snd g\<rparr>))"

section \<open>Layout engine\<close>

datatype LayoutAlgorithm = ForceDirected | Hierarchical | Circular

record LayoutOptions =
  lo_iterations :: real
  lo_springLength :: real
  lo_springStrength :: real
  lo_repulsionStrength :: real
  lo_damping :: real
  lo_animationDuration :: real
  lo_centerForce :: real

record LayoutState =
  ls_isAnimating :: bool
  ls_progress :: real
  ls_algorithm :: LayoutAlgorithm
  ls_startTime :: real
  ls_duration :: real

record Transform =
  tr_x :: real
  tr_y :: real
  tr_scale :: real

text \<open>
  A \<open>Map<string, Point>\<close> keeps its keys in insertion order: an association list
  with one entry for each key.
\<close>

type_synonym PositionMap = "(string \<times> Point) list"

definition mapSet :: "('k \<times> 'v) list \<Rightarrow> 'k \<Rightarrow> 'v \<Rightarrow> ('k \<times> 'v) list" where
  "mapSet m k v =
     (if k \<in> fst ` set m then map (\<lambda>kv. if fst kv = k then (k, v) else kv) m
      else m @ [(k, v)])"

record GraphEngineImpl =
  ge_nodes :: "GraphNode list"
  ge_edges :: "GraphEdge list"
  ge_layoutState :: LayoutState
  ge_animationFrameId :: "nat option"
  ge_targetPositions :: PositionMap

text \<open>
  \<open>stopLayout\<close>. The second argument and result is the set of animation frame requests
  pending with the host: \<open>cancelAnimationFrame\<close> removes the engine's request from it.
\<close>

definition stopLayout :: "GraphEngineImpl \<Rightarrow> nat set \<Rightarrow> GraphEngineImpl \<times> nat set" where
  "stopLayout this pendingFrames =
     (let cancelled =
            (case ge_animationFrameId this of
               Some frameId \<Rightarrow> (this\<lparr>ge_animationFrameId := None\<rparr>, pendingFrames - {frameId})
             | None \<Rightarrow> (this, pendingFrames));
          this1 = fst cancelled
      in (this1\<lparr>ge_layoutState := (ge_layoutState this1)\<lparr>ls_isAnimating := False\<rparr>,
                ge_targetPositions := []\<rparr>,
          snd cancelled))"

text \<open>
  The hit test computes with the host's numbers, double-precision floating point
  numbers: every operation rounds, a quotient by zero is an infinity, and an undefined
  result is a number of its own, for which every comparison is false. The model takes
  the host's numbers as a type \<open>'n\<close> and the operations that the hit test uses as a
  parameter, so that nothing is assumed of them that floating point arithmetic does not
  provide. A coordinate kept in a point or in a transform is the real value of a finite
  host number, and \<open>ar_of_real\<close> gives the host number back.
\<close>

record 'n Arith =
  ar_of_real :: "real \<Rightarrow> 'n"
  ar_add :: "'n \<Rightarrow> 'n \<Rightarrow> 'n"
  ar_sub :: "'n \<Rightarrow> 'n \<Rightarrow> 'n"
  ar_mul :: "'n \<Rightarrow> 'n \<Rightarrow> 'n"
  ar_div :: "'n \<Rightarrow> 'n \<Rightarrow> 'n"
  ar_sqrt :: "'n \<Rightarrow> 'n"
  ar_le :: "'n \<Rightarrow> 'n \<Rightarrow> bool"

text \<open>
  \<open>screenToWorld\<close>: the world position is a pair of host numbers, which need not be
  finite.
\<close>

definition screenToWorld :: "'n Arith \<Rightarrow> Point \<Rightarrow> Transform \<Rightarrow> 'n \<times> 'n" where
  "screenToWorld ar screenPoint transform =
     (ar_div ar (ar_sub ar (ar_of_real ar (pt_x screenPoint)) (ar_of_real ar (tr_x transform)))
        (ar_of_real ar (tr_scale transform)),
      ar_div ar (ar_sub ar (ar_of_real ar (pt_y screenPoint)) (ar_of_real ar (tr_y transform)))
        (ar_of_real ar (tr_scale transform)))"

text \<open>The distance the hit test computes for a node, from the world position.\<close>

definition hitDistance :: "'n Arith \<Rightarrow> 'n \<times> 'n \<Rightarrow> GraphNode \<Rightarrow> 'n" where
  "hitDistance ar worldPos node =
     (let dx = ar_sub ar (fst worldPos) (ar_of_real ar (pt_x (node_position node)));
          dy = ar_sub ar (snd worldPos) (ar_of_real ar (pt_y (node_position node)))
      in ar_sqrt ar (ar_add ar (ar_mul ar dx dx) (ar_mul ar dy dy)))"

text \<open>The loop of the engine's \<open>getNodeAtPosition\<close> over the nodes.\<close>

fun hitLoop :: "'n Arith \<Rightarrow> GraphNode list \<Rightarrow> 'n \<times> 'n \<Rightarrow> 'n \<Rightarrow> GraphNode option" where
  "hitLoop ar [] worldPos nodeRadius = None"
| "hitLoop ar (node # rest) worldPos nodeRadius =
     (if ar_le ar (hitDistance ar worldPos node) nodeRadius then Some node
      else hitLoop ar rest worldPos nodeRadius)"

definition getNodeAtPosition ::
  "'n Arith \<Rightarrow> GraphEngineImpl \<Rightarrow> Point \<Rightarrow> Transform \<Rightarrow> GraphNode option" where
  "getNodeAtPosition ar this position transform =
     (let nodeRadius = ar_of_real ar 20;
          worldPos = screenToWorld ar position transform
      in hitLoop ar (ge_nodes this) worldPos nodeRadius)"

text \<open>
  \<open>centerLayoutPositions\<close>: the layout is shifted so that its mean position is the mean
  of the nodes' current positions.
\<close>

definition centerLayoutPositions :: "GraphEngineImpl \<Rightarrow> PositionMap \<Rightarrow> PositionMap" where
  "centerLayoutPositions this positions =
     (if length positions = 0 then positions
      else
        let currentCenterX =
              sum_list (map (\<lambda>node. pt_x (node_position node)) (ge_nodes this))
                / real (length (ge_nodes this));
            currentCenterY =
              sum_list (map (\<lambda>node. pt_y (node_position node)) (ge_nodes this))
                / real (length (ge_nodes this));
            newCenterX = sum_list (map (\<lambda>kv. pt_x (snd kv)) positions) / real (length positions);
            newCenterY = sum_list (map (\<lambda>kv. pt_y (snd kv)) positions) / real (length positions);
            offsetX = currentCenterX - newCenterX;
            offsetY = currentCenterY - newCenterY
        in map (\<lambda>kv. (fst kv, \<lparr>pt_x = pt_x (snd kv) + offsetX, pt_y = pt_y (snd kv) + offsetY\<rparr>))
             positions)"

text \<open>Grouping of the node ids by node type, groups in order of first appearance.\<close>

definition addToGroup ::
  "(NodeType \<times> string list) list \<Rightarrow> NodeType \<Rightarrow> string \<Rightarrow> (NodeType \<times> string list) list" where
  "addToGroup nodeGroups key nodeId =
     (let groups1 = (if key \<notin> fst ` set nodeGroups then nodeGroups @ [(key, [])] else nodeGroups)
      in map (\<lambda>g. if fst g = key then (key, snd g @ [nodeId]) else g) groups1)"

fun groupNodes ::
  "GraphNode list \<Rightarrow> (NodeType \<times> string list) list \<Rightarrow> (NodeType \<times> string list) list" where
  "groupNodes [] nodeGroups = nodeGroups"
| "groupNodes (node # rest) nodeGroups =
     groupNodes rest (addToGroup nodeGroups (node_type node) (node_id node))"

text \<open>The ids of one group placed on a circle, from index \<open>index\<close>.\<close>

fun placeOnCircle :: "string list \<Rightarrow> nat \<Rightarrow> nat \<Rightarrow> real \<Rightarrow> PositionMap \<Rightarrow> PositionMap" where
  "placeOnCircle [] index count radius positions = positions"
| "placeOnCircle (nodeId # rest) index count radius positions =
     (let angle = (2 * pi * real index) / real count
      in placeOnCircle rest (index + 1) count radius
           (mapSet positions nodeId \<lparr>pt_x = cos angle * radius, pt_y = sin angle * radius\<rparr>))"

fun placeGroups :: "string list list \<Rightarrow> nat \<Rightarrow> PositionMap \<Rightarrow> PositionMap" where
  "placeGroups [] groupIndex positions = positions"
| "placeGroups (nodeIds # rest) groupIndex positions =
     (let radius = 130 + real groupIndex * 100
      in placeGroups rest (groupIndex + 1)
           (placeOnCircle nodeIds 0 (length nodeIds) radius positions))"

definition calculateCircularLayout :: "GraphEngineImpl \<Rightarrow> LayoutOptions \<Rightarrow> PositionMap" where
  "calculateCircularLayout this options =
     (if length (ge_nodes this) = 0 then []
      else if length (ge_nodes this) = 1
      then mapSet [] (node_id (ge_nodes this ! 0)) \<lparr>pt_x = 0, pt_y = 0\<rparr>
      else
        let groups = map snd (groupNodes (ge_nodes this) []);
            baseRadius = 130;
            positions =
              (if length groups = 1 then
                 (let nodeIds = groups ! 0;
                      radius = max baseRadius (real (length nodeIds) * 15)
                  in placeOnCircle nodeIds 0 (length nodeIds) radius [])
               else placeGroups groups 0 [])
        in centerLayoutPositions this positions)"

text \<open>The mean position of the nodes and of a position map.\<close>

definition nodesCentroid :: "GraphNode list \<Rightarrow> real \<times> real" where
  "nodesCentroid nodes =
     (sum_list (map (\<lambda>node. pt_x (node_position node)) nodes) / real (length nodes),
      sum_list (map (\<lambda>node. pt_y (node_position node)) nodes) / real (length nodes))"

definition positionsCentroid :: "PositionMap \<Rightarrow> real \<times> real" where
  "positionsCentroid positions =
     (sum_list (map (\<lambda>kv. pt_x (snd kv)) positions) / real (length positions),
      sum_list (map (\<lambda>kv. pt_y (snd kv)) positions) / real (length positions))"

section \<open>Sample inputs\<close>

definition nodeAt :: "string \<Rightarrow> real \<Rightarrow> real \<Rightarrow> GraphNode" where
  "nodeAt label px py =
     newEntityNode (generateNodeId label) label (Some \<lparr>pt_x = px, pt_y = py\<rparr>)"

definition engineWith :: "GraphNode list \<Rightarrow> GraphEngineImpl" where
  "engineWith nodes =
     \<lparr>ge_nodes = nodes, ge_edges = [],
      ge_layoutState = \<lparr>ls_isAnimating = False, ls_progress = 0, ls_algorithm = ForceDirected,
                         ls_startTime = 0, ls_duration = 0\<rparr>,
      ge_animationFrameId = None, ge_targetPositions = []\<rparr>"

text \<open>An engine in the middle of an animation, with one frame request pending.\<close>

definition animatingEngine :: GraphEngineImpl where
  "animatingEngine =
     \<lparr>ge_nodes = [nodeAt ''A'' 50 50], ge_edges = [],
      ge_layoutState = \<lparr>ls_isAnimating = True, ls_progress = 1 / 2, ls_algorithm = Circular,
                         ls_startTime = 0, ls_duration = 1500\<rparr>,
      ge_animationFrameId = Some 7,
      ge_targetPositions = [(''a'', \<lparr>pt_x = 100, pt_y = 100\<rparr>)]\<rparr>"

definition origin :: Point where
  "origin = \<lparr>pt_x = 0, pt_y = 0\<rparr>"

definition identityTransform :: Transform where
  "identityTransform = \<lparr>tr_x = 0, tr_y = 0, tr_scale = 1\<rparr>"

definition believesText :: string where
  "believesText = ''(believes Alice (likes Bob Carol))''"

definition believesTriple :: Triple where
  "believesTriple =
     \<lparr>triple_predicate = ''believes'', triple_subject = Single ''Alice'',
      triple_object = Multi [''likes'', ''Bob'', ''Carol''], triple_isHypergraph = True\<rparr>"

definition genderText :: string where
  "genderText = ''(gender Chandler M)'' @ [CHR 0x0A] @ ''(gender Chandler M)''"

definition genderTriple :: Triple where
  "genderTriple =
     \<lparr>triple_predicate = ''gender'', triple_subject = Single ''Chandler'',
      triple_object = Single ''M'', triple_isHypergraph = False\<rparr>"

definition collisionText :: string where
  "collisionText = ''(c-L a b)'' @ [CHR 0x0A] @ ''(L a b-c)'' @ [CHR 0x0A] @ ''(L b-c a)''"

definition collisionEdges :: "GraphEdge list" where
  "collisionEdges =
     [relationEdge ''c-L-a-b'' ''a'' ''b'' ''c-L'',
      relationEdge ''L-a-b-c'' ''a'' ''b-c'' ''L'',
      relationEdge ''L-b-c-a'' ''b-c'' ''a'' ''L'']"

section \<open>Evaluation on concrete inputs\<close>

text \<open>
  The defining equations used to run the model on a concrete input. Bound values of a
  \<open>let\<close> are evaluated before they are substituted (\<open>let_weak_cong\<close>).
\<close>

lemmas str_defs = isSpace_def isUpper_def isLower_def isDigit_def upperCaseChars_def
  lowerCaseChars_def toLowerChar_def toLowerCase_def
  trim_def charAt_def slice_def digitChar_def

lemmas parse_defs = tokenize_def looksNested_def isExprArg_def stringArgsOf_def nestedObjectsOf_def
  scalarOrArray_def expressionToTriple_def skippedLine_def extractTriples_def

lemmas graph_defs = stripHyphenEnds_def generateNodeId_def bumpOccurrences_def newEntityNode_def
  createOrUpdateNode_def toArray_def isCapitalizedWord_def determineNodeType_def falsyString_def
  setNodeProperty_def edgeExists_def relationEdge_def connectionEdge_def createEdgesBetweenNodes_def
  createIntermediateNode_def createHypergraphStructures_def processSimpleTriple_def lastOption_def
  processHypergraphTriple_def forwardKey_def reverseKey_def detectBidirectionalRelationships_def
  createGraphMetadata_def transformTriplestoGraph_def

lemma getNodeColor_nonempty [simp]: "getNodeColor label \<noteq> []"
  by (simp add: getNodeColor_def)

lemma extractTriples_believesText: "extractTriples believesText = [believesTriple]"
  by (simp add: believesText_def believesTriple_def str_defs parse_defs)

lemma extractTriples_genderText: "extractTriples genderText = [genderTriple, genderTriple]"
  by (simp add: genderText_def genderTriple_def str_defs parse_defs)

section \<open>Layout engine: stopping, hit test, centring\<close>

text \<open>
  C8. \<open>stopLayout\<close> leaves the node array, hence every node position, exactly as it
  was; afterwards \<open>isAnimating\<close> is false, no frame request is held, and the request
  that was held has been cancelled. This holds in every state, in particular in the
  middle of an animation.
\<close>

theorem stopLayout_freezes_positions:
  "ge_nodes (fst (stopLayout this pendingFrames)) = ge_nodes this
   \<and> ls_isAnimating (ge_layoutState (fst (stopLayout this pendingFrames))) = False
   \<and> ge_animationFrameId (fst (stopLayout this pendingFrames)) = None
   \<and> snd (stopLayout this pendingFrames) = pendingFrames - set_option (ge_animationFrameId this)"
  by (cases "ge_animationFrameId this") (simp_all add: stopLayout_def)

theorem stopLayout_freezes_positions_witness:
  "ls_isAnimating (ge_layoutState animatingEngine)
   \<and> ls_progress (ge_layoutState animatingEngine) < 1
   \<and> map node_position (ge_nodes (fst (stopLayout animatingEngine {7})))
       = [\<lparr>pt_x = 50, pt_y = 50\<rparr>]
   \<and> ls_isAnimating (ge_layoutState (fst (stopLayout animatingEngine {7}))) = False
   \<and> snd (stopLayout animatingEngine {7}) = {}"
proof -
  have a: "ls_isAnimating (ge_layoutState animatingEngine)"
    "ls_progress (ge_layoutState animatingEngine) < 1"
    "map node_position (ge_nodes animatingEngine) = [\<lparr>pt_x = 50, pt_y = 50\<rparr>]"
    "ge_animationFrameId animatingEngine = Some 7"
    by (simp_all add: animatingEngine_def nodeAt_def newEntityNode_def)
  from stopLayout_freezes_positions [of animatingEngine "{7}"] a
  show ?thesis by simp
qed

text \<open>
  Whatever the arithmetic, the engine's hit test returns the first node in array order
  whose computed distance passes the comparison with the radius, and nothing when no
  node passes it. Two distances are never compared with each other.
\<close>

lemma hitLoop_find:
  "hitLoop ar nodes worldPos nodeRadius
     = find (\<lambda>node. ar_le ar (hitDistance ar worldPos node) nodeRadius) nodes"
  by (induction nodes) simp_all

lemma getNodeAtPosition_first_in_order:
  "getNodeAtPosition ar this position transform
     = find (\<lambda>node. ar_le ar (hitDistance ar (screenToWorld ar position transform) node)
                       (ar_of_real ar 20))
         (ge_nodes this)"
  by (simp add: getNodeAtPosition_def hitLoop_find)

text \<open>
  An arithmetic is exact on small integers when, on integers of magnitude at most 1000,
  sums, differences and products are the integer results, a quotient by one is the
  dividend, the square root of a square is the magnitude, and the comparison is the
  order of the integers. The host's double-precision arithmetic is: its operations,
  the square root among them, return the exact result whenever that is a double, and
  all the integers named here are far below \<open>2 ^ 53\<close>. Arithmetic on the real
  numbers is exact on small integers as well.
\<close>

definition exactOnSmallIntegers :: "'n Arith \<Rightarrow> bool" where
  "exactOnSmallIntegers ar =
     (\<forall>a b :: int. \<bar>a\<bar> \<le> 1000 \<and> \<bar>b\<bar> \<le> 1000 \<longrightarrow>
        ar_add ar (ar_of_real ar (of_int a)) (ar_of_real ar (of_int b))
          = ar_of_real ar (of_int (a + b))
        \<and> ar_sub ar (ar_of_real ar (of_int a)) (ar_of_real ar (of_int b))
          = ar_of_real ar (of_int (a - b))
        \<and> ar_mul ar (ar_of_real ar (of_int a)) (ar_of_real ar (of_int b))
          = ar_of_real ar (of_int (a * b))
        \<and> ar_div ar (ar_of_real ar (of_int a)) (ar_of_real ar 1) = ar_of_real ar (of_int a)
        \<and> ar_sqrt ar (ar_of_real ar (of_int (a * a))) = ar_of_real ar (of_int \<bar>a\<bar>)
        \<and> (ar_le ar (ar_of_real ar (of_int a)) (ar_of_real ar (of_int b)) \<longleftrightarrow> a \<le> b))"

definition realArith :: "real Arith" where
  "realArith =
     \<lparr>ar_of_real = (\<lambda>r. r), ar_add = (+), ar_sub = (-), ar_mul = (*), ar_div = (/),
      ar_sqrt = sqrt, ar_le = (\<le>)\<rparr>"

lemma realArith_exact: "exactOnSmallIntegers realArith"
  by (simp add: exactOnSmallIntegers_def realArith_def)

text \<open>
  C7 fails in the engine: its hit test does not return the nearest node. With node A at
  (10, 0) before node B at (0, 0) in the node array, the hit test at the screen position
  (0, 0) under the identity transform returns A, although both nodes are within the
  radius of 20 and B, at distance 0, is strictly nearer than A, at distance 10. This
  holds in every arithmetic that is exact on small integers, so in the host's.
\<close>

theorem getNodeAtPosition_first_not_nearest:
  assumes "exactOnSmallIntegers ar"
  shows "getNodeAtPosition ar (engineWith [nodeAt ''A'' 10 0, nodeAt ''B'' 0 0]) origin
           identityTransform = Some (nodeAt ''A'' 10 0)
       \<and> hitDistance ar (screenToWorld ar origin identityTransform) (nodeAt ''A'' 10 0)
           = ar_of_real ar 10
       \<and> hitDistance ar (screenToWorld ar origin identityTransform) (nodeAt ''B'' 0 0)
           = ar_of_real ar 0
       \<and> ar_le ar (ar_of_real ar 0) (ar_of_real ar 20)
       \<and> ar_le ar (ar_of_real ar 0) (ar_of_real ar 10)
       \<and> \<not> ar_le ar (ar_of_real ar 10) (ar_of_real ar 0)"
proof -
  have ex: "ar_add ar (ar_of_real ar (of_int a)) (ar_of_real ar (of_int b))
              = ar_of_real ar (of_int (a + b))
            \<and> ar_sub ar (ar_of_real ar (of_int a)) (ar_of_real ar (of_int b))
              = ar_of_real ar (of_int (a - b))
            \<and> ar_mul ar (ar_of_real ar (of_int a)) (ar_of_real ar (of_int b))
              = ar_of_real ar (of_int (a * b))
            \<and> ar_div ar (ar_of_real ar (of_int a)) (ar_of_real ar 1) = ar_of_real ar (of_int a)
            \<and> ar_sqrt ar (ar_of_real ar (of_int (a * a))) = ar_of_real ar (of_int \<bar>a\<bar>)
            \<and> (ar_le ar (ar_of_real ar (of_int a)) (ar_of_real ar (of_int b)) \<longleftrightarrow> a \<le> b)"
    if "\<bar>a\<bar> \<le> 1000" "\<bar>b\<bar> \<le> 1000" for a b :: int
    using assms that unfolding exactOnSmallIntegers_def by blast
  have s0: "ar_sub ar (ar_of_real ar 0) (ar_of_real ar 0) = ar_of_real ar 0"
    and d0: "ar_div ar (ar_of_real ar 0) (ar_of_real ar 1) = ar_of_real ar 0"
    and m0: "ar_mul ar (ar_of_real ar 0) (ar_of_real ar 0) = ar_of_real ar 0"
    and a0: "ar_add ar (ar_of_real ar 0) (ar_of_real ar 0) = ar_of_real ar 0"
    and q0: "ar_sqrt ar (ar_of_real ar 0) = ar_of_real ar 0"
    using ex [of 0 0] by simp_all
  have s1: "ar_sub ar (ar_of_real ar 0) (ar_of_real ar 10) = ar_of_real ar (- 10)"
    and l1: "ar_le ar (ar_of_real ar 0) (ar_of_real ar 10)"
    using ex [of 0 10] by simp_all
  have m1: "ar_mul ar (ar_of_real ar (- 10)) (ar_of_real ar (- 10)) = ar_of_real ar 100"
    using ex [of "- 10" "- 10"] by simp
  have a1: "ar_add ar (ar_of_real ar 100) (ar_of_real ar 0) = ar_of_real ar 100"
    using ex [of 100 0] by simp
  have q1: "ar_sqrt ar (ar_of_real ar 100) = ar_of_real ar 10"
    and l2: "\<not> ar_le ar (ar_of_real ar 10) (ar_of_real ar 0)"
    using ex [of 10 0] by simp_all
  have l3: "ar_le ar (ar_of_real ar 10) (ar_of_real ar 20)"
    using ex [of 10 20] by simp
  have l4: "ar_le ar (ar_of_real ar 0) (ar_of_real ar 20)"
    using ex [of 0 20] by simp
  have w: "screenToWorld ar origin identityTransform = (ar_of_real ar 0, ar_of_real ar 0)"
    by (simp add: screenToWorld_def origin_def identityTransform_def s0 d0)
  have dA: "hitDistance ar (ar_of_real ar 0, ar_of_real ar 0) (nodeAt ''A'' 10 0)
              = ar_of_real ar 10"
    by (simp add: hitDistance_def nodeAt_def newEntityNode_def s0 s1 m0 m1 a1 q1)
  have dB: "hitDistance ar (ar_of_real ar 0, ar_of_real ar 0) (nodeAt ''B'' 0 0)
              = ar_of_real ar 0"
    by (simp add: hitDistance_def nodeAt_def newEntityNode_def s0 m0 a0 q0)
  have "getNodeAtPosition ar (engineWith [nodeAt ''A'' 10 0, nodeAt ''B'' 0 0]) origin
          identityTransform = Some (nodeAt ''A'' 10 0)"
    by (simp add: getNodeAtPosition_def engineWith_def w dA l3)
  with w dA dB l1 l2 l4 show ?thesis by simp
qed

theorem getNodeAtPosition_first_not_nearest_witness:
  "exactOnSmallIntegers realArith
   \<and> getNodeAtPosition realArith (engineWith [nodeAt ''A'' 10 0, nodeAt ''B'' 0 0]) origin
       identityTransform = Some (nodeAt ''A'' 10 0)
   \<and> hitDistance realArith (screenToWorld realArith origin identityTransform) (nodeAt ''A'' 10 0)
       = 10
   \<and> hitDistance realArith (screenToWorld realArith origin identityTransform) (nodeAt ''B'' 0 0)
       = 0"
  using getNodeAtPosition_first_not_nearest [OF realArith_exact] realArith_exact
  by (simp add: realArith_def)

lemma sum_list_shift:
  "sum_list (map (\<lambda>kv. f kv + (c::real)) ps) = sum_list (map f ps) + real (length ps) * c"
  by (induction ps) (simp_all add: algebra_simps)

text \<open>
  The centring pass does what its name says: a non-empty layout comes out of it with the
  mean of the nodes' current positions as its mean.
\<close>

lemma centerLayoutPositions_centroid:
  assumes "positions \<noteq> []"
  shows "positionsCentroid (centerLayoutPositions this positions) = nodesCentroid (ge_nodes this)"
proof -
  have n: "real (length positions) \<noteq> 0"
    using assms by simp
  show ?thesis
    using assms n
    by (simp add: centerLayoutPositions_def positionsCentroid_def nodesCentroid_def Let_def
        o_def sum_list_shift add_divide_distrib)
qed

text \<open>
  C4 fails for the circular layout of a single node: that case returns before the
  centring pass, with the node at the origin. For one node at (5, 5) the layout's mean
  position is (0, 0), the nodes' is (5, 5).
\<close>

theorem circular_single_node_not_centred:
  "calculateCircularLayout (engineWith [nodeAt ''A'' 5 5]) options = [(''a'', origin)]
   \<and> positionsCentroid (calculateCircularLayout (engineWith [nodeAt ''A'' 5 5]) options) = (0, 0)
   \<and> nodesCentroid (ge_nodes (engineWith [nodeAt ''A'' 5 5])) = (5, 5)"
  by (simp add: calculateCircularLayout_def engineWith_def nodeAt_def newEntityNode_def mapSet_def
      positionsCentroid_def nodesCentroid_def generateNodeId_def toLowerCase_def toLowerChar_def
      upperCaseChars_def lowerCaseChars_def isLower_def isDigit_def stripHyphenEnds_def origin_def)

section \<open>Bidirectional detection\<close>

lemma extractTriples_collisionText:
  "extractTriples collisionText =
     [\<lparr>triple_predicate = ''c-L'', triple_subject = Single ''a'', triple_object = Single ''b'',
       triple_isHypergraph = False\<rparr>,
      \<lparr>triple_predicate = ''L'', triple_subject = Single ''a'', triple_object = Single ''b-c'',
       triple_isHypergraph = False\<rparr>,
      \<lparr>triple_predicate = ''L'', triple_subject = Single ''b-c'', triple_object = Single ''a'',
       triple_isHypergraph = False\<rparr>]"
  by (simp add: collisionText_def str_defs parse_defs)

lemma transformLoop_collisionText:
  "fst (snd (snd (transformLoop (extractTriples collisionText) 0 this [] [] []))) = collisionEdges"
  by (simp add: extractTriples_collisionText collisionEdges_def str_defs graph_defs
      Let_def cong: let_weak_cong)

text \<open>
  C5 fails where two different edges have the same forward key. The lines \<open>(c-L a b)\<close>,
  \<open>(L a b-c)\<close> and \<open>(L b-c a)\<close> give the transformer three edges: from \<open>a\<close> to
  \<open>b\<close> with label \<open>c-L\<close>, from \<open>a\<close> to \<open>b-c\<close> with label \<open>L\<close>, and from
  \<open>b-c\<close> to \<open>a\<close> with label \<open>L\<close>. The second and the third are a pair of opposite
  edges with the same label, and the first pass records the pair. The first and the second
  share the forward key \<open>a-b-c-L\<close>, so the second pass drops the second edge: the
  output, and with it the parse result, holds no edge from \<open>a\<close> to \<open>b-c\<close> any more.
\<close>

theorem detectBidirectionalRelationships_drops_pair_member:
  "collectPairs collisionEdges {} {} = {''a-b-c-L|b-c-a-L''}
   \<and> detectBidirectionalRelationships collisionEdges
       = [relationEdge ''c-L-a-b'' ''a'' ''b'' ''c-L'', relationEdge ''L-b-c-a'' ''b-c'' ''a'' ''L'']
   \<and> filter (\<lambda>e. edge_source e = ''a'' \<and> edge_target e = ''b-c'' \<and> edge_label e = ''L'')
        (detectBidirectionalRelationships collisionEdges) = []
   \<and> pr_edges (fst (parse now this collisionText))
       = [relationEdge ''c-L-a-b'' ''a'' ''b'' ''c-L'', relationEdge ''L-b-c-a'' ''b-c'' ''a'' ''L'']"
  by (simp add: parse_def transformTriplestoGraph_def Let_def transformLoop_collisionText
      detectBidirectionalRelationships_def collisionEdges_def relationEdge_def forwardKey_def
      reverseKey_def pairKey_def)

section \<open>Parsing the sample texts\<close>

text \<open>
  C2. The line \<open>(believes Alice (likes Bob Carol))\<close> gives one hypergraph record with
  subjects \<open>[Alice]\<close> and objects \<open>[likes, Bob, Carol]\<close>; the nodes of the parse result
  are the four nodes of Alice, likes, Bob and Carol followed by one intermediate node of
  type hypergraph, and its edges are four undirected hypergraph connections, one from
  each of the four nodes to the intermediate node. This holds for any state of the
  parser; the intermediate node's id carries the transformer's counter.
\<close>

theorem parse_believesText:
  "map (\<lambda>h. (hg_predicate h, hg_subjects h, hg_objects h))
       (gd_hypergraphs (fst (transformTriplestoGraph now (mp_graphTransformer this)
                              (extractTriples believesText))))
     = [(''believes'', [''Alice''], [''likes'', ''Bob'', ''Carol''])]
   \<and> map (\<lambda>n. (node_id n, node_label n, node_type n)) (pr_nodes (fst (parse now this believesText)))
     = [(''alice'', ''Alice'', Entity), (''likes'', ''likes'', Entity),
        (''bob'', ''Bob'', Entity), (''carol'', ''Carol'', Entity),
        (''believes-group-'' @ showNat (gt_hypergraphCounter (mp_graphTransformer this) + 1),
         ''believes group'', Hypergraph)]
   \<and> map (\<lambda>e. (edge_source e, edge_target e, edge_directed e, edge_type e))
         (pr_edges (fst (parse now this believesText)))
     = map (\<lambda>src. (src,
                    ''believes-group-'' @ showNat (gt_hypergraphCounter (mp_graphTransformer this) + 1),
                    False, HypergraphConnection))
         [''alice'', ''likes'', ''bob'', ''carol'']"
  by (simp add: parse_def extractTriples_believesText believesTriple_def str_defs graph_defs
      Let_def cong: let_weak_cong)

text \<open>
  C3. The line \<open>(gender Chandler M)\<close> on two lines gives exactly two nodes, for
  Chandler and for M, each with two occurrences, and exactly one edge, a directed
  relation from the Chandler node to the M node.
\<close>

theorem parse_genderText:
  "map (\<lambda>n. (node_id n, node_label n, md_occurrences (node_metadata n)))
       (pr_nodes (fst (parse now this genderText)))
     = [(''chandler'', ''Chandler'', Some 2), (''m'', ''M'', Some 2)]
   \<and> map (\<lambda>e. (edge_id e, edge_source e, edge_target e, edge_label e, edge_directed e, edge_type e))
         (pr_edges (fst (parse now this genderText)))
     = [(''gender-chandler-m'', ''chandler'', ''m'', ''gender'', True, Relation)]"
  by (simp add: parse_def extractTriples_genderText genderTriple_def str_defs graph_defs
      Let_def cong: let_weak_cong)

section \<open>Validation of the minimum content\<close>

text \<open>
  Balanced parentheses, read off the text and not off the validator: no closing
  parenthesis without an opening one before it, and none left open at the end.
\<close>

fun balancedFrom :: "int \<Rightarrow> string \<Rightarrow> bool" where
  "balancedFrom depth [] = (depth = 0)"
| "balancedFrom depth (c # cs) =
     (if c = CHR ''('' then balancedFrom (depth + 1) cs
      else if c = CHR '')'' then depth - 1 \<ge> 0 \<and> balancedFrom (depth - 1) cs
      else balancedFrom depth cs)"

definition balanced :: "string \<Rightarrow> bool" where
  "balanced s = balancedFrom 0 s"

lemma parenScan_balanced:
  "balancedFrom d cs \<Longrightarrow> fst (parenScan cs j d lo) = 0 \<and> snd (snd (parenScan cs j d lo)) = None"
  by (induction cs arbitrary: j d lo) (auto split: if_splits)

lemma validateLine_appends:
  "fst (validateLine i l acc) = fst acc @ fst (validateLine i l ([], []))"
  by (simp add: validateLine_def Let_def split: option.splits)

lemma validateLoop_mono: "set (fst acc) \<subseteq> set (fst (validateLoop i ls acc))"
proof (induction ls arbitrary: i acc)
  case Nil
  then show ?case by simp
next
  case (Cons l ls)
  have "set (fst acc) \<subseteq> set (fst (validateLine i l acc))"
    using validateLine_appends [of i l acc] by simp
  also have "\<dots> \<subseteq> set (fst (validateLoop (i + 1) ls (validateLine i l acc)))"
    by (rule Cons.IH)
  finally show ?case by simp
qed

lemma validateLoop_line:
  "k < length ls \<Longrightarrow>
   set (fst (validateLine (i + k) (ls ! k) ([], []))) \<subseteq> set (fst (validateLoop i ls acc))"
proof (induction ls arbitrary: i k acc)
  case Nil
  then show ?case by simp
next
  case (Cons l ls)
  show ?case
  proof (cases k)
    case 0
    have "set (fst (validateLine i l ([], []))) \<subseteq> set (fst (validateLine i l acc))"
      using validateLine_appends [of i l acc] by simp
    also have "\<dots> \<subseteq> set (fst (validateLoop (i + 1) ls (validateLine i l acc)))"
      by (rule validateLoop_mono)
    finally show ?thesis using 0 by simp
  next
    case (Suc k')
    with Cons.prems have "k' < length ls" by simp
    from Cons.IH [OF this, of "i + 1" "validateLine i l acc"] Suc
    show ?thesis by simp
  qed
qed

lemma validateLine_min_content:
  assumes "line = trim rawLine" "\<not> skippedLine line" "charAt line 0 = ''(''"
    and "balanced line" "length line > 2" "length (splitWs (trim (slice line 1 (- 1)))) < 2"
  shows "minContentError i \<in> set (fst (validateLine i rawLine ([], [])))"
proof -
  from assms(4) have "fst (parenScan line 0 0 (- 1)) = 0"
    and "snd (snd (parenScan line 0 0 (- 1))) = None"
    using parenScan_balanced [of 0 line 0 "- 1"] by (simp_all add: balanced_def)
  with assms show ?thesis
    by (simp add: validateLine_def Let_def)
qed

text \<open>
  C6, amended. A line that, trimmed, is neither blank nor a comment, starts with an
  opening and ends with a closing parenthesis, has balanced parentheses, is longer than
  two characters and whose interior splits on white space into fewer than two parts,
  gets the error "Expression must have at least a predicate and one argument" with its
  line number, and the text is not valid.
\<close>

theorem validateSyntax_min_content:
  assumes "i < length (splitOn CHR 0x0A mettaText)"
    and "line = trim (splitOn CHR 0x0A mettaText ! i)"
    and "\<not> skippedLine line"
    and "charAt line 0 = ''(''" and "charAt line (int (length line) - 1) = '')''"
    and "balanced line"
    and "length line > 2"
    and "length (splitWs (trim (slice line 1 (- 1)))) < 2"
  shows "minContentError i \<in> set (vr_errors (validateSyntax mettaText))
         \<and> \<not> vr_isValid (validateSyntax mettaText)"
proof -
  have "minContentError i \<in> set (fst (validateLine i (splitOn CHR 0x0A mettaText ! i) ([], [])))"
    using assms by (intro validateLine_min_content [of line]) simp_all
  then have "minContentError i \<in> set (fst (validateLoop 0 (splitOn CHR 0x0A mettaText) ([], [])))"
    using validateLoop_line [OF assms(1), of 0 "([], [])"] by auto
  then show ?thesis
    by (auto simp: validateSyntax_def Let_def)
qed

text \<open>
  C6, as stated, fails on the line \<open>()\<close>: it meets every condition of the claim, its
  interior splits into one (empty) part, and yet the validator reports nothing and the
  text is valid. The check for minimum content is made only on lines longer than two
  characters.
\<close>

theorem validateSyntax_empty_parens:
  "validateSyntax ''()'' = \<lparr>vr_isValid = True, vr_errors = [], vr_warnings = []\<rparr>
   \<and> \<not> skippedLine (trim ''()'') \<and> charAt (trim ''()'') 0 = ''(''
   \<and> charAt (trim ''()'') (int (length (trim ''()'')) - 1) = '')''
   \<and> balanced (trim ''()'')
   \<and> length (splitWs (trim (slice (trim ''()'') 1 (- 1)))) < 2"
  by (simp add: validateSyntax_def validateLine_def balanced_def str_defs skippedLine_def Let_def
      cong: let_weak_cong)

theorem validateSyntax_min_content_witness:
  "0 < length (splitOn CHR 0x0A ''(a)'')
   \<and> \<not> skippedLine (trim (splitOn CHR 0x0A ''(a)'' ! 0))
   \<and> balanced (trim (splitOn CHR 0x0A ''(a)'' ! 0))
   \<and> length (trim (splitOn CHR 0x0A ''(a)'' ! 0)) > 2
   \<and> minContentError 0 \<in> set (vr_errors (validateSyntax ''(a)''))
   \<and> \<not> vr_isValid (validateSyntax ''(a)'')"
proof -
  have l: "trim (splitOn CHR 0x0A ''(a)'' ! 0) = ''(a)''"
    by (simp add: str_defs)
  have h: "0 < length (splitOn CHR 0x0A ''(a)'')" "\<not> skippedLine ''(a)''"
    "charAt ''(a)'' 0 = ''(''" "charAt ''(a)'' (int (length ''(a)'') - 1) = '')''"
    "balanced ''(a)''" "length ''(a)'' > 2"
    "length (splitWs (trim (slice ''(a)'' 1 (- 1)))) < 2"
    by (simp_all add: str_defs skippedLine_def balanced_def)
  from validateSyntax_min_content [OF h(1) l [symmetric] h(2-7)] l h
  show ?thesis by simp
qed

section \<open>Node and edge identity across parses\<close>

text \<open>
  A node is label-addressed when, unless it is a hypergraph node, its id is the id
  generated from its label.
\<close>

definition labelAddressed :: "GraphNode \<Rightarrow> bool" where
  "labelAddressed n = (node_type n \<noteq> Hypergraph \<longrightarrow> node_id n = generateNodeId (node_label n))"

text \<open>
  Every step of the transformer keeps all nodes label-addressed: nodes are created with
  the generated id, updates in place leave id and label alone, and a node's type never
  becomes or ceases to be \<open>hypergraph\<close>.
\<close>

lemma list_update_in_place:
  assumes "list_all P xs" and "\<And>n. P n \<Longrightarrow> P (f n)"
  shows "list_all P (xs[k := f (xs ! k)])"
proof (cases "k < length xs")
  case True
  then have "P (f (xs ! k))"
    using assms by (simp add: list_all_length)
  with assms(1) show ?thesis
    using set_update_subset_insert [of xs k "f (xs ! k)"] by (auto simp: list_all_iff)
next
  case False
  with assms(1) show ?thesis by (simp add: list_update_beyond)
qed

lemma labelAddressed_bump: "labelAddressed n \<Longrightarrow> labelAddressed (bumpOccurrences n)"
  by (simp add: labelAddressed_def bumpOccurrences_def)

lemma determineNodeType_not_Hypergraph: "determineNodeType label predicate \<noteq> Hypergraph"
  by (simp add: determineNodeType_def)

lemma labelAddressed_setNodeProperty:
  "labelAddressed n \<Longrightarrow> labelAddressed (setNodeProperty predicate n)"
  by (auto simp: labelAddressed_def setNodeProperty_def Let_def)

lemma createOrUpdateNode_labelAddressed:
  "list_all labelAddressed nodes \<Longrightarrow>
   list_all labelAddressed (fst (createOrUpdateNode nodes label position))"
  by (auto simp: createOrUpdateNode_def Let_def newEntityNode_def labelAddressed_def
      intro!: list_update_in_place labelAddressed_bump split: option.splits)

lemma createNodes_labelAddressed:
  "list_all labelAddressed nodes \<Longrightarrow>
   list_all labelAddressed (fst (createNodes labels place i nodes))"
  by (induction labels arbitrary: i nodes)
     (simp_all add: Let_def createOrUpdateNode_labelAddressed)

lemma setNodeProperties_labelAddressed:
  "list_all labelAddressed nodes \<Longrightarrow>
   list_all labelAddressed (setNodeProperties ks predicate nodes)"
  by (induction ks arbitrary: nodes)
     (simp_all add: list_update_in_place labelAddressed_setNodeProperty)

lemma processSimpleTriple_labelAddressed:
  "list_all labelAddressed nodes \<Longrightarrow>
   list_all labelAddressed (fst (processSimpleTriple triple nodes edges index))"
  by (simp add: processSimpleTriple_def Let_def setNodeProperties_labelAddressed
      createNodes_labelAddressed)

lemma processHypergraphTriple_labelAddressed:
  "list_all labelAddressed nodes \<Longrightarrow>
   list_all labelAddressed (fst (processHypergraphTriple this triple nodes edges hypergraphs index))"
  by (auto simp: processHypergraphTriple_def Let_def createIntermediateNode_def labelAddressed_def
      intro!: setNodeProperties_labelAddressed createNodes_labelAddressed split: option.splits)

lemma transformLoop_labelAddressed:
  "list_all labelAddressed nodes \<Longrightarrow>
   list_all labelAddressed (fst (snd (transformLoop triples index this nodes edges hypergraphs)))"
  by (induction triples arbitrary: index this nodes edges hypergraphs)
     (simp_all add: Let_def processSimpleTriple_labelAddressed processHypergraphTriple_labelAddressed)

lemma parse_labelAddressed: "list_all labelAddressed (pr_nodes (fst (parse now this mettaText)))"
  using transformLoop_labelAddressed [of "[]"]
  by (simp add: parse_def transformTriplestoGraph_def Let_def)

lemma transformLoop_simple_counter:
  "\<forall>t \<in> set triples. \<not> triple_isHypergraph t \<Longrightarrow>
   fst (transformLoop triples index this nodes edges hypergraphs) = this"
  by (induction triples arbitrary: index nodes edges hypergraphs) (simp_all add: Let_def)

lemma parse_simple_state:
  "\<forall>t \<in> set (extractTriples mettaText). \<not> triple_isHypergraph t \<Longrightarrow>
   snd (parse now this mettaText) = this"
  by (simp add: parse_def transformTriplestoGraph_def Let_def transformLoop_simple_counter)

lemma parse_now_nodes:
  "pr_nodes (fst (parse now' this mettaText)) = pr_nodes (fst (parse now this mettaText))
   \<and> pr_edges (fst (parse now' this mettaText)) = pr_edges (fst (parse now this mettaText))"
  by (simp add: parse_def transformTriplestoGraph_def Let_def)

text \<open>
  The intermediate nodes of a node array, each as its id and its label, in array order;
  and the ids and labels that a transformer whose counter stands at \<open>counter\<close> gives
  to the intermediate nodes of a list of triples: the counter goes up by one for each
  hypergraph triple, and its new value ends the id.
\<close>

definition intermediateNodes :: "GraphNode list \<Rightarrow> (string \<times> string) list" where
  "intermediateNodes nodes =
     map (\<lambda>n. (node_id n, node_label n)) (filter (\<lambda>n. node_type n = Hypergraph) nodes)"

fun countedGroups :: "nat \<Rightarrow> Triple list \<Rightarrow> (string \<times> string) list" where
  "countedGroups counter [] = []"
| "countedGroups counter (triple # triples) =
     (if triple_isHypergraph triple
      then (triple_predicate triple @ ''-group-'' @ showNat (counter + 1),
            triple_predicate triple @ '' group'') # countedGroups (counter + 1) triples
      else countedGroups counter triples)"

text \<open>
  Creating or updating an entity node and setting node properties neither add nor remove
  an intermediate node, nor change the id or the label of one; a hypergraph triple
  appends one intermediate node, whose id ends in the counter as it then stands.
\<close>

lemma intermediateNodes_update:
  assumes "\<And>n. node_type (f n) = Hypergraph \<longleftrightarrow> node_type n = Hypergraph"
    and "\<And>n. node_id (f n) = node_id n" and "\<And>n. node_label (f n) = node_label n"
  shows "intermediateNodes (xs[k := f (xs ! k)]) = intermediateNodes xs"
  unfolding intermediateNodes_def
  by (induction xs arbitrary: k) (auto split: nat.splits simp: assms)

lemma intermediateNodes_append:
  "intermediateNodes (xs @ ys) = intermediateNodes xs @ intermediateNodes ys"
  by (simp add: intermediateNodes_def)

lemma createOrUpdateNode_intermediateNodes:
  "intermediateNodes (fst (createOrUpdateNode nodes label position)) = intermediateNodes nodes"
proof (cases "findNodeIndex nodes (generateNodeId label) 0")
  case None
  then show ?thesis
    by (simp add: createOrUpdateNode_def intermediateNodes_append)
       (simp add: intermediateNodes_def newEntityNode_def)
next
  case (Some k)
  then show ?thesis
    by (simp add: createOrUpdateNode_def intermediateNodes_update bumpOccurrences_def)
qed

lemma createNodes_intermediateNodes:
  "intermediateNodes (fst (createNodes labels place i nodes)) = intermediateNodes nodes"
  by (induction labels arbitrary: i nodes)
     (simp_all add: Let_def createOrUpdateNode_intermediateNodes)

lemma setNodeProperty_keeps:
  "(node_type (setNodeProperty predicate n) = Hypergraph \<longleftrightarrow> node_type n = Hypergraph)
   \<and> node_id (setNodeProperty predicate n) = node_id n
   \<and> node_label (setNodeProperty predicate n) = node_label n"
  using determineNodeType_not_Hypergraph by (auto simp: setNodeProperty_def Let_def)

lemma setNodeProperties_intermediateNodes:
  "intermediateNodes (setNodeProperties ks predicate nodes) = intermediateNodes nodes"
  by (induction ks arbitrary: nodes)
     (simp_all add: intermediateNodes_update setNodeProperty_keeps)

lemma processSimpleTriple_intermediateNodes:
  "intermediateNodes (fst (processSimpleTriple triple nodes edges index)) = intermediateNodes nodes"
  by (simp add: processSimpleTriple_def Let_def setNodeProperties_intermediateNodes
      createNodes_intermediateNodes)

lemma processHypergraphTriple_intermediateNodes:
  assumes "lastOption hypergraphs = Some h" and "\<not> falsyString (hg_intermediateNodeId h)"
  shows "intermediateNodes (fst (processHypergraphTriple this triple nodes edges hypergraphs index))
           = intermediateNodes nodes
             @ [(triple_predicate triple @ ''-group-'' @ showNat (gt_hypergraphCounter this),
                 triple_predicate triple @ '' group'')]"
  using assms
  by (simp add: processHypergraphTriple_def Let_def setNodeProperties_intermediateNodes
      intermediateNodes_append createNodes_intermediateNodes)
     (simp add: intermediateNodes_def createIntermediateNode_def)

lemma transformLoop_intermediateNodes:
  "intermediateNodes (fst (snd (transformLoop triples index this nodes edges hypergraphs)))
     = intermediateNodes nodes @ countedGroups (gt_hypergraphCounter this) triples"
proof (induction triples arbitrary: index this nodes edges hypergraphs)
  case Nil
  then show ?case by simp
next
  case (Cons triple triples)
  show ?case
  proof (cases "triple_isHypergraph triple")
    case False
    then show ?thesis
      by (simp add: Let_def Cons.IH processSimpleTriple_intermediateNodes)
  next
    case True
    let ?hs = "createHypergraphStructures this triple"
    have l: "lastOption (hypergraphs @ fst ?hs) = Some (hd (fst ?hs))"
      by (simp add: createHypergraphStructures_def lastOption_def Let_def)
    have f: "\<not> falsyString (hg_intermediateNodeId (hd (fst ?hs)))"
      by (simp add: createHypergraphStructures_def falsyString_def Let_def)
    have c: "gt_hypergraphCounter (snd ?hs) = gt_hypergraphCounter this + 1"
      by (simp add: createHypergraphStructures_def Let_def)
    from True show ?thesis
      by (simp add: Let_def Cons.IH processHypergraphTriple_intermediateNodes [OF l f] c
          del: createHypergraphStructures_def)
  qed
qed

lemma transformLoop_counter:
  "gt_hypergraphCounter (fst (transformLoop triples index this nodes edges hypergraphs))
     = gt_hypergraphCounter this + length (filter triple_isHypergraph triples)"
  by (induction triples arbitrary: index this nodes edges hypergraphs)
     (simp_all add: Let_def createHypergraphStructures_def)

lemma parse_intermediateNodes:
  "intermediateNodes (pr_nodes (fst (parse now this mettaText)))
     = countedGroups (gt_hypergraphCounter (mp_graphTransformer this)) (extractTriples mettaText)"
  using transformLoop_intermediateNodes [of "extractTriples mettaText" 0 "mp_graphTransformer this" "[]" "[]" "[]"]
  by (simp add: parse_def transformTriplestoGraph_def Let_def intermediateNodes_def)

lemma parse_counter:
  "gt_hypergraphCounter (mp_graphTransformer (snd (parse now this mettaText)))
     = gt_hypergraphCounter (mp_graphTransformer this)
       + length (filter triple_isHypergraph (extractTriples mettaText))"
  by (simp add: parse_def transformTriplestoGraph_def Let_def transformLoop_counter)

lemma collapseHyphens_snoc:
  "c \<noteq> CHR ''-'' \<Longrightarrow> collapseHyphens (s @ [c]) = collapseHyphens s @ [c]"
proof (induction s rule: collapseHyphens.induct)
  case 1
  then show ?case by simp
next
  case (2 d ds)
  show ?case
  proof (cases "d = CHR ''-''")
    case True
    have "dropWhile (\<lambda>d. d = CHR ''-'') (ds @ [c]) = dropWhile (\<lambda>d. d = CHR ''-'') ds @ [c]"
      using 2(3) by (simp add: dropWhile_append)
    with True 2(1) [OF True 2(3)] show ?thesis by simp
  next
    case False
    with 2(2) [OF False 2(3)] show ?thesis by simp
  qed
qed

lemma stripHyphenEnds_last:
  assumes "last s = c" and "c \<noteq> CHR ''-''" and "2 \<le> length s"
  shows "stripHyphenEnds s \<noteq> [] \<and> last (stripHyphenEnds s) = c"
proof -
  obtain a t where s: "s = a # t" and t: "t \<noteq> []"
    using assms(3) by (cases s; cases "tl s") auto
  from s t assms(1) have "last t = c" by simp
  with s t assms show ?thesis by (auto simp: stripHyphenEnds_def Let_def)
qed

lemma generateNodeId_group_last:
  "generateNodeId (p @ '' group'') \<noteq> [] \<and> last (generateNodeId (p @ '' group'')) = CHR ''p''"
proof -
  let ?f = "\<lambda>c. if isLower c \<or> isDigit c then c else CHR ''-''"
  let ?m = "map ?f (toLowerCase p) @ ''-gro''"
  have m: "map ?f (toLowerCase (p @ '' group'')) = (?m @ [CHR ''u'']) @ [CHR ''p'']"
    by (simp add: str_defs)
  have "collapseHyphens ((?m @ [CHR ''u'']) @ [CHR ''p''])
          = collapseHyphens ?m @ [CHR ''u'', CHR ''p'']"
    using collapseHyphens_snoc [of "CHR ''p''" "?m @ [CHR ''u'']"]
      collapseHyphens_snoc [of "CHR ''u''" ?m]
    by simp
  then have "generateNodeId (p @ '' group'')
               = stripHyphenEnds (collapseHyphens ?m @ [CHR ''u'', CHR ''p''])"
    unfolding generateNodeId_def m by simp
  then show ?thesis
    using stripHyphenEnds_last [of "collapseHyphens ?m @ [CHR ''u'', CHR ''p'']" "CHR ''p''"]
    by simp
qed

lemma showNat_last: "showNat k \<noteq> [] \<and> isDigit (last (showNat k))"
proof -
  have d: "isDigit (digitChar n)" for n
  proof -
    have "n mod 10 < length ''0123456789''" by simp
    then have "''0123456789'' ! (n mod 10) \<in> set ''0123456789''"
      by (rule nth_mem)
    then show ?thesis by (simp only: digitChar_def isDigit_def)
  qed
  show ?thesis
    using d [of k] d [of "k mod 10"] by (subst (1 2) showNat.simps) simp
qed

lemma counted_id_not_generated:
  "p @ ''-group-'' @ showNat k \<noteq> generateNodeId (p @ '' group'')"
proof
  assume e: "p @ ''-group-'' @ showNat k = generateNodeId (p @ '' group'')"
  have "last (p @ ''-group-'' @ showNat k) = last (showNat k)"
    using showNat_last [of k] by simp
  moreover have "last (generateNodeId (p @ '' group'')) = CHR ''p''"
    using generateNodeId_group_last [of p] by blast
  ultimately have "last (showNat k) = CHR ''p''"
    unfolding e by simp
  moreover have "isDigit (last (showNat k))"
    using showNat_last [of k] by blast
  ultimately show False by (simp add: isDigit_def)
qed

lemma countedGroups_form:
  "(i, l) \<in> set (countedGroups c triples) \<Longrightarrow>
   \<exists>p k. i = p @ ''-group-'' @ showNat k \<and> l = p @ '' group''"
  by (induction triples arbitrary: c) (auto split: if_splits)

lemma parse_hypergraph_ids:
  assumes "n \<in> set (pr_nodes (fst (parse now this mettaText)))" and "node_type n = Hypergraph"
  shows "node_id n \<noteq> generateNodeId (node_label n)"
proof -
  from assms have "(node_id n, node_label n)
      \<in> set (intermediateNodes (pr_nodes (fst (parse now this mettaText))))"
    by (force simp: intermediateNodes_def)
  then obtain p k where "node_id n = p @ ''-group-'' @ showNat k" "node_label n = p @ '' group''"
    unfolding parse_intermediateNodes using countedGroups_form by blast
  then show ?thesis using counted_id_not_generated [of p k] by simp
qed


text \<open>
  C1, amended. For every text, every node of the parse result that is not a hypergraph
  intermediate node has the id generated from its label (lower-cased, every character
  other than a lower-case letter or digit replaced by a hyphen, runs of hyphens
  collapsed, one hyphen trimmed at each end). If the text yields no hypergraph triple, a
  second parse of the same text on the same parser returns the same nodes and the same
  edges as the first, so the same node ids and edge ids. The intermediate nodes of the
  result are, in order, one for each hypergraph triple of the text: the one of the
  \<open>i\<close>-th hypergraph triple has the label \<open><predicate> group\<close> and the id
  \<open><predicate>-group-<n>\<close>, where \<open>n\<close> is the transformer's counter before the
  parse plus \<open>i\<close>; the parse leaves the counter advanced by the number of hypergraph
  triples, so the next parse counts on from there. The id of an intermediate node is
  never the id generated from its label.
\<close>

theorem parse_ids_label_addressed:
  "(\<forall>n \<in> set (pr_nodes (fst (parse now this mettaText))).
      node_type n \<noteq> Hypergraph \<longrightarrow> node_id n = generateNodeId (node_label n))
   \<and> ((\<forall>t \<in> set (extractTriples mettaText). \<not> triple_isHypergraph t) \<longrightarrow>
        pr_nodes (fst (parse now' (snd (parse now this mettaText)) mettaText))
          = pr_nodes (fst (parse now this mettaText))
        \<and> pr_edges (fst (parse now' (snd (parse now this mettaText)) mettaText))
          = pr_edges (fst (parse now this mettaText)))
   \<and> intermediateNodes (pr_nodes (fst (parse now this mettaText)))
       = countedGroups (gt_hypergraphCounter (mp_graphTransformer this))
           (extractTriples mettaText)
   \<and> gt_hypergraphCounter (mp_graphTransformer (snd (parse now this mettaText)))
       = gt_hypergraphCounter (mp_graphTransformer this)
         + length (filter triple_isHypergraph (extractTriples mettaText))
   \<and> (\<forall>n \<in> set (pr_nodes (fst (parse now this mettaText))).
        node_type n = Hypergraph \<longrightarrow> node_id n \<noteq> generateNodeId (node_label n))"
  using parse_labelAddressed [of now this mettaText] parse_now_nodes [of now' this mettaText now]
    parse_intermediateNodes [of now this mettaText] parse_counter [of now this mettaText]
    parse_hypergraph_ids [of _ now this mettaText]
  by (auto simp: list_all_iff labelAddressed_def parse_simple_state)


lemma showNat_1: "showNat (Suc 0) = ''1''"
  by (simp add: showNat.simps digitChar_def)

lemma showNat_2: "showNat (Suc (Suc 0)) = ''2''"
  by (simp add: showNat.simps digitChar_def)

lemma believes_hypergraphs:
  "map (\<lambda>h. (hg_predicate h, hg_subjects h, hg_objects h))
       (gd_hypergraphs (fst (transformTriplestoGraph now transformer (extractTriples believesText))))
     = [(''believes'', [''Alice''], [''likes'', ''Bob'', ''Carol''])]"
  by (simp add: extractTriples_believesText believesTriple_def str_defs graph_defs
      Let_def cong: let_weak_cong)

lemma believes_nodes:
  "map (\<lambda>n. (node_id n, node_label n, node_type n)) (pr_nodes (fst (parse now this believesText)))
     = [(''alice'', ''Alice'', Entity), (''likes'', ''likes'', Entity),
        (''bob'', ''Bob'', Entity), (''carol'', ''Carol'', Entity),
        (''believes-group-'' @ showNat (gt_hypergraphCounter (mp_graphTransformer this) + 1),
         ''believes group'', Hypergraph)]"
  by (simp add: parse_def extractTriples_believesText believesTriple_def str_defs graph_defs
      Let_def cong: let_weak_cong)

lemma believes_edges:
  "map (\<lambda>e. (edge_id e, edge_source e, edge_target e, edge_directed e, edge_type e))
         (pr_edges (fst (parse now this believesText)))
     = map (\<lambda>src. (''believes-'' @ src @ ''-believes-group-''
                      @ showNat (gt_hypergraphCounter (mp_graphTransformer this) + 1),
                    src,
                    ''believes-group-'' @ showNat (gt_hypergraphCounter (mp_graphTransformer this) + 1),
                    False, HypergraphConnection))
         [''alice'', ''likes'', ''bob'', ''carol'']"
  by (simp add: parse_def extractTriples_believesText believesTriple_def str_defs graph_defs
      Let_def cong: let_weak_cong)

lemma believes_counter:
  "gt_hypergraphCounter (mp_graphTransformer (snd (parse now this believesText)))
     = gt_hypergraphCounter (mp_graphTransformer this) + 1"
  by (simp add: parse_def extractTriples_believesText believesTriple_def str_defs graph_defs
      Let_def cong: let_weak_cong)

text \<open>
  C1, as stated, fails for a text with a hypergraph fact. The id of an intermediate node
  ends in the transformer's counter, which goes on counting from one parse to the next:
  two successive parses of \<open>(believes Alice (likes Bob Carol))\<close> on a new parser give
  the intermediate node the ids \<open>believes-group-1\<close> and \<open>believes-group-2\<close>, so the
  sets of node ids differ and so do the sets of edge ids. Neither id is the id generated
  from the node's label \<open>believes group\<close>, which is \<open>believes-group\<close>.
\<close>

theorem reparse_changes_intermediate_ids:
  "map node_id (pr_nodes (fst (parse 0 newMettaParserImpl believesText)))
     = [''alice'', ''likes'', ''bob'', ''carol'', ''believes-group-1'']
   \<and> map node_id (pr_nodes (fst (parse 0 (snd (parse 0 newMettaParserImpl believesText)) believesText)))
     = [''alice'', ''likes'', ''bob'', ''carol'', ''believes-group-2'']
   \<and> set (map node_id (pr_nodes (fst (parse 0 newMettaParserImpl believesText))))
     \<noteq> set (map node_id
              (pr_nodes (fst (parse 0 (snd (parse 0 newMettaParserImpl believesText)) believesText))))
   \<and> set (map edge_id (pr_edges (fst (parse 0 newMettaParserImpl believesText))))
     \<noteq> set (map edge_id
              (pr_edges (fst (parse 0 (snd (parse 0 newMettaParserImpl believesText)) believesText))))
   \<and> generateNodeId ''believes group'' = ''believes-group''"
proof -
  let ?p1 = "parse 0 newMettaParserImpl believesText"
  let ?p2 = "parse 0 (snd ?p1) believesText"
  have c1: "gt_hypergraphCounter (mp_graphTransformer (snd ?p1)) = Suc 0"
    using believes_counter [of 0 newMettaParserImpl] by (simp add: newMettaParserImpl_def)
  have n1: "map node_id (pr_nodes (fst ?p1))
              = [''alice'', ''likes'', ''bob'', ''carol'', ''believes-group-1'']"
    using arg_cong [OF believes_nodes [of 0 newMettaParserImpl], of "map fst"]
    by (simp add: newMettaParserImpl_def showNat_1 o_def)
  have n2: "map node_id (pr_nodes (fst ?p2))
              = [''alice'', ''likes'', ''bob'', ''carol'', ''believes-group-2'']"
    using arg_cong [OF believes_nodes [of 0 "snd ?p1"], of "map fst"]
    by (simp add: c1 showNat_2 o_def)
  have e1: "map edge_id (pr_edges (fst ?p1))
              = [''believes-alice-believes-group-1'', ''believes-likes-believes-group-1'',
                 ''believes-bob-believes-group-1'', ''believes-carol-believes-group-1'']"
    using arg_cong [OF believes_edges [of 0 newMettaParserImpl], of "map fst"]
    by (simp add: newMettaParserImpl_def showNat_1 o_def)
  have e2: "map edge_id (pr_edges (fst ?p2))
              = [''believes-alice-believes-group-2'', ''believes-likes-believes-group-2'',
                 ''believes-bob-believes-group-2'', ''believes-carol-believes-group-2'']"
    using arg_cong [OF believes_edges [of 0 "snd ?p1"], of "map fst"]
    by (simp add: c1 showNat_2 o_def)
  have dn: "set (map node_id (pr_nodes (fst ?p1))) \<noteq> set (map node_id (pr_nodes (fst ?p2)))"
  proof
    assume "set (map node_id (pr_nodes (fst ?p1))) = set (map node_id (pr_nodes (fst ?p2)))"
    moreover have "''believes-group-2'' \<in> set (map node_id (pr_nodes (fst ?p2)))"
      unfolding n2 by simp
    ultimately have "''believes-group-2'' \<in> set (map node_id (pr_nodes (fst ?p1)))"
      by simp
    then show False unfolding n1 by simp
  qed
  have de: "set (map edge_id (pr_edges (fst ?p1))) \<noteq> set (map edge_id (pr_edges (fst ?p2)))"
  proof
    assume "set (map edge_id (pr_edges (fst ?p1))) = set (map edge_id (pr_edges (fst ?p2)))"
    moreover have "''believes-bob-believes-group-2'' \<in> set (map edge_id (pr_edges (fst ?p2)))"
      unfolding e2 by simp
    ultimately have "''believes-bob-believes-group-2'' \<in> set (map edge_id (pr_edges (fst ?p1)))"
      by simp
    then show False unfolding e1 by simp
  qed
  have g: "generateNodeId ''believes group'' = ''believes-group''"
    by (simp add: str_defs graph_defs)
  from n1 n2 dn de g show ?thesis by blast
qed

theorem parse_ids_label_addressed_witness:
  "list_all (\<lambda>t. \<not> triple_isHypergraph t) (extractTriples genderText)
   \<and> pr_nodes (fst (parse 1 (snd (parse 0 newMettaParserImpl genderText)) genderText))
       = pr_nodes (fst (parse 0 newMettaParserImpl genderText))
   \<and> pr_edges (fst (parse 1 (snd (parse 0 newMettaParserImpl genderText)) genderText))
       = pr_edges (fst (parse 0 newMettaParserImpl genderText))
   \<and> list_all (\<lambda>n. node_id n = generateNodeId (node_label n))
        (pr_nodes (fst (parse 0 newMettaParserImpl genderText)))
   \<and> intermediateNodes (pr_nodes (fst (parse 0 newMettaParserImpl believesText)))
       = [(''believes-group-1'', ''believes group'')]
   \<and> gt_hypergraphCounter
        (mp_graphTransformer (snd (parse 0 newMettaParserImpl believesText))) = 1
   \<and> intermediateNodes
        (pr_nodes (fst (parse 1 (snd (parse 0 newMettaParserImpl believesText)) believesText)))
       = [(''believes-group-2'', ''believes group'')]
   \<and> list_all (\<lambda>n. node_type n = Hypergraph \<and> node_id n \<noteq> generateNodeId (node_label n))
        (filter (\<lambda>n. node_type n = Hypergraph)
           (pr_nodes (fst (parse 0 newMettaParserImpl believesText))))"
proof -
  let ?g = "parse 0 newMettaParserImpl genderText"
  let ?b = "parse 0 newMettaParserImpl believesText"
  have h: "\<forall>t \<in> set (extractTriples genderText). \<not> triple_isHypergraph t"
    by (simp add: extractTriples_genderText genderTriple_def)
  have ty: "\<forall>n \<in> set (pr_nodes (fst ?g)). node_type n \<noteq> Hypergraph"
    by (simp add: parse_def extractTriples_genderText genderTriple_def str_defs graph_defs
        newMettaParserImpl_def Let_def cong: let_weak_cong)
  have c0: "gt_hypergraphCounter (mp_graphTransformer newMettaParserImpl) = 0"
    by (simp add: newMettaParserImpl_def)
  have g: "pr_nodes (fst (parse 1 (snd ?g) genderText)) = pr_nodes (fst ?g)"
    "pr_edges (fst (parse 1 (snd ?g) genderText)) = pr_edges (fst ?g)"
    "list_all (\<lambda>n. node_id n = generateNodeId (node_label n)) (pr_nodes (fst ?g))"
    using parse_ids_label_addressed [of 0 newMettaParserImpl genderText 1] h ty
    by (simp_all add: list_all_iff)
  have b1: "intermediateNodes (pr_nodes (fst ?b)) = [(''believes-group-1'', ''believes group'')]"
    and c1: "gt_hypergraphCounter (mp_graphTransformer (snd ?b)) = 1"
    using parse_ids_label_addressed [of 0 newMettaParserImpl believesText 0]
    by (simp_all add: c0 extractTriples_believesText believesTriple_def showNat_1)
  have b2: "intermediateNodes (pr_nodes (fst (parse 1 (snd ?b) believesText)))
              = [(''believes-group-2'', ''believes group'')]"
    using parse_ids_label_addressed [of 1 "snd ?b" believesText 0]
    by (simp add: c1 extractTriples_believesText believesTriple_def showNat_2)
  have b3: "list_all (\<lambda>n. node_type n = Hypergraph \<and> node_id n \<noteq> generateNodeId (node_label n))
              (filter (\<lambda>n. node_type n = Hypergraph) (pr_nodes (fst ?b)))"
    using parse_ids_label_addressed [of 0 newMettaParserImpl believesText 0]
    by (simp add: list_all_iff)
  from h g b1 c1 b2 b3 show ?thesis by (simp add: list_all_iff)
qed


section \<open>Flat expressions with one argument\<close>

text \<open>
  The number of words of a string: its maximal runs of characters that are not white
  space. The flag says whether the character before was part of a word.
\<close>

fun wordCount :: "bool \<Rightarrow> string \<Rightarrow> nat" where
  "wordCount inWord [] = 0"
| "wordCount inWord (c # cs) =
     (if isSpace c then wordCount False cs
      else (if inWord then 0 else 1) + wordCount True cs)"

lemma splitOn_no_separator: "d \<notin> set s \<Longrightarrow> splitOn d s = [s]"
  by (induction s) auto

lemma set_trim_subset: "set (trim s) \<subseteq> set s"
  unfolding trim_def by (auto dest!: set_dropWhileD)

lemma trim_fixed:
  assumes "s \<noteq> []" "\<not> isSpace (hd s)" "\<not> isSpace (last s)"
  shows "trim s = s"
proof -
  have "dropWhile isSpace s = s"
    using assms by (cases s) auto
  moreover have "dropWhile isSpace (rev s) = rev s"
    using assms by (cases "rev s") (auto simp: hd_rev)
  ultimately show ?thesis by (simp add: trim_def)
qed

lemma trim_nonempty_has_char: "trim s \<noteq> [] \<Longrightarrow> \<exists>c \<in> set s. \<not> isSpace c"
proof -
  assume "trim s \<noteq> []"
  then have "\<exists>c \<in> set (dropWhile isSpace s). \<not> isSpace c"
    by (auto simp: trim_def dropWhile_eq_Nil_conv)
  then show ?thesis
    by (auto dest: set_dropWhileD)
qed

lemma wordCount_has_char: "\<exists>c \<in> set s. \<not> isSpace c \<Longrightarrow> 1 \<le> wordCount False s"
  by (induction s) auto

lemma wordCount_flag: "wordCount True s \<le> wordCount False s"
  by (cases s) auto

lemma wordCount_False_le: "wordCount False s \<le> wordCount True s + 1"
  by (cases s) auto

lemma wordCount_append_space:
  "isSpace w \<Longrightarrow> wordCount f (a @ w # b) = wordCount f a + wordCount False b"
  by (induction a arbitrary: f) auto

lemma wordCount_append_le: "wordCount f (a @ b) \<le> wordCount f a + wordCount False b"
proof (induction a arbitrary: f)
  case Nil
  then show ?case using wordCount_flag [of b] by (cases f) auto
next
  case (Cons c a)
  then show ?case
    using Cons.IH [of True] Cons.IH [of False] by auto
qed

lemma wordCount_dropWhile: "wordCount False (dropWhile isSpace s) = wordCount False s"
  by (induction s) auto

lemma splitWs_nonempty: "splitWs s \<noteq> []"
  by (induction s rule: splitWs.induct) (auto split: list.splits)

lemma wordCount_le_splitWs: "wordCount True s + 1 \<le> length (splitWs s)"
proof (induction s rule: splitWs.induct)
  case 1
  then show ?case by simp
next
  case (2 c cs)
  show ?case
  proof (cases "isSpace c")
    case True
    have "wordCount False cs = wordCount False (dropWhile isSpace cs)"
      by (simp add: wordCount_dropWhile)
    also have "\<dots> \<le> wordCount True (dropWhile isSpace cs) + 1"
      by (rule wordCount_False_le)
    also have "\<dots> \<le> length (splitWs (dropWhile isSpace cs))"
      using 2(1) [OF True] .
    finally show ?thesis using True by simp
  next
    case False
    with 2(2) [OF False] splitWs_nonempty [of cs] show ?thesis
      by (auto split: list.splits)
  qed
qed

text \<open>
  On a string without parentheses the tokenizer yields at most as many tokens as there
  are words, and \<open>split(/\s+/)\<close> yields at least as many parts; a token has no
  character that the tokenized string does not have.
\<close>

lemma tokenizeLoop_count:
  "CHR ''('' \<notin> set cs \<Longrightarrow> CHR '')'' \<notin> set cs \<Longrightarrow>
   length (tokenizeLoop cs toks cur 0 b) \<le> length toks + wordCount False (cur @ cs)"
proof (induction cs arbitrary: toks cur b)
  case Nil
  then show ?case
    using wordCount_has_char [OF trim_nonempty_has_char, of cur] by auto
next
  case (Cons c cs)
  have sp: "isSpace CHR '' ''" by (simp add: isSpace_def)
  show ?case
  proof (cases "c = CHR '' ''")
    case True
    show ?thesis
    proof (cases "trim cur = []")
      case True
      have "length (tokenizeLoop cs toks cur 0 False) \<le> length toks + wordCount False (cur @ cs)"
        using Cons.prems by (intro Cons.IH) auto
      also have "\<dots> \<le> length toks + (wordCount False cur + wordCount False cs)"
        using wordCount_append_le [of False cur cs] by simp
      finally show ?thesis
        using True \<open>c = CHR '' ''\<close> sp by (simp add: wordCount_append_space)
    next
      case False
      have "length (tokenizeLoop cs (toks @ [trim cur]) [] 0 False)
              \<le> length (toks @ [trim cur]) + wordCount False ([] @ cs)"
        using Cons.prems by (intro Cons.IH) auto
      moreover have "1 \<le> wordCount False cur"
        using wordCount_has_char [OF trim_nonempty_has_char [OF False]] .
      ultimately show ?thesis
        using False \<open>c = CHR '' ''\<close> sp by (simp add: wordCount_append_space)
    qed
  next
    case False
    have "length (tokenizeLoop cs toks (cur @ [c]) 0 True)
            \<le> length toks + wordCount False ((cur @ [c]) @ cs)"
      using Cons.prems by (intro Cons.IH) auto
    then show ?thesis
      using False Cons.prems by auto
  qed
qed

lemma tokenizeLoop_chars:
  "t \<in> set (tokenizeLoop cs toks cur d b) \<Longrightarrow> t \<in> set toks \<or> set t \<subseteq> set cur \<union> set cs"
proof (induction cs arbitrary: toks cur d b)
  case Nil
  then show ?case
    using set_trim_subset [of cur] by (auto split: if_splits)
next
  case (Cons c cs)
  have a: "set (trim (cur @ [c])) \<subseteq> set cur \<union> {c}"
    using set_trim_subset [of "cur @ [c]"] by auto
  have b: "set (trim cur) \<subseteq> set cur"
    by (rule set_trim_subset)
  from Cons.prems show ?case
    using a b by (auto split: if_splits dest!: Cons.IH)
qed

lemma tokenize_chars: "t \<in> set (tokenize s) \<Longrightarrow> set t \<subseteq> set s"
  using tokenizeLoop_chars [of t s "[]" "[]" 0 False] by (simp add: tokenize_def)

lemma tokenize_count:
  "CHR ''('' \<notin> set s \<Longrightarrow> CHR '')'' \<notin> set s \<Longrightarrow> length (tokenize s) \<le> length (splitWs s)"
proof -
  assume a: "CHR ''('' \<notin> set s" "CHR '')'' \<notin> set s"
  have "length (tokenize s) \<le> wordCount False s"
    using tokenizeLoop_count [OF a, of "[]" "[]" False] by (simp add: tokenize_def)
  also have "\<dots> \<le> wordCount True s + 1"
    by (rule wordCount_False_le)
  also have "\<dots> \<le> length (splitWs s)"
    by (rule wordCount_le_splitWs)
  finally show ?thesis .
qed

lemma balancedFrom_skip:
  "CHR ''('' \<notin> set cs \<Longrightarrow> CHR '')'' \<notin> set cs \<Longrightarrow>
   balancedFrom d (cs @ rest) = balancedFrom d rest"
  by (induction cs) auto

lemma validateLine_warnings:
  "list_all (\<lambda>w. err_severity w = SevWarning) (snd acc) \<Longrightarrow>
   list_all (\<lambda>w. err_severity w = SevWarning) (snd (validateLine i l acc))"
  by (simp add: validateLine_def Let_def typoWarning_def split: option.splits)

lemma validateLoop_warnings:
  "list_all (\<lambda>w. err_severity w = SevWarning) (snd acc) \<Longrightarrow>
   list_all (\<lambda>w. err_severity w = SevWarning) (snd (validateLoop i ls acc))"
  by (induction ls arbitrary: i acc) (simp_all add: validateLine_warnings)

lemma validateSyntax_warnings:
  "list_all (\<lambda>w. err_severity w = SevWarning) (vr_warnings (validateSyntax mettaText))"
  using validateLoop_warnings [of "([], [])" 0 "splitOn CHR 0x0A mettaText"]
  by (simp add: validateSyntax_def Let_def)

lemma charAt_last: "s \<noteq> [] \<Longrightarrow> charAt s (int (length s) - 1) = [last s]"
  by (cases s rule: rev_cases) (simp_all add: charAt_def nat_add_distrib nth_append)

lemma flat_line_facts:
  assumes form: "line = ''('' @ content @ '')''"
    and np: "CHR ''('' \<notin> set content" "CHR '')'' \<notin> set content"
    and two: "length (splitWs (trim content)) = 2"
  shows "trim line = line" "\<not> skippedLine line" "charAt line 0 = ''(''"
    "charAt line (int (length line) - 1) = '')''" "slice line 1 (- 1) = content"
    "balanced line" "length line > 2"
proof -
  have sp: "\<not> isSpace CHR ''(''" "\<not> isSpace CHR '')''"
    by (simp_all add: isSpace_def)
  show "trim line = line"
    using sp by (intro trim_fixed) (simp_all add: form)
  show "\<not> skippedLine line"
    by (simp add: skippedLine_def form charAt_def)
  show "charAt line 0 = ''(''"
    by (simp add: form charAt_def)
  show "charAt line (int (length line) - 1) = '')''"
    using charAt_last [of line] by (simp add: form)
  show "slice line 1 (- 1) = content"
    by (simp add: slice_inner form)
  show "balanced line"
    using np by (simp add: balanced_def form balancedFrom_skip)
  have "content \<noteq> []"
    using two by (auto simp: trim_def)
  then show "length line > 2"
    by (cases content) (simp_all add: form)
qed

lemma flat_line_no_error:
  assumes form: "trim rawLine = ''('' @ content @ '')''"
    and np: "CHR ''('' \<notin> set content" "CHR '')'' \<notin> set content"
    and two: "length (splitWs (trim content)) = 2"
  shows "fst (validateLine i rawLine ([], [])) = []"
proof -
  note f = flat_line_facts [OF form np two]
  from f(6) have "fst (parenScan (trim rawLine) 0 0 (- 1)) = 0"
    and "snd (snd (parenScan (trim rawLine) 0 0 (- 1))) = None"
    using parenScan_balanced [of 0 "trim rawLine" 0 "- 1"] by (simp_all add: balanced_def)
  with f two show ?thesis
    by (simp add: validateLine_def Let_def)
qed

lemma flat_line_no_triple:
  assumes form: "line = ''('' @ content @ '')''"
    and np: "CHR ''('' \<notin> set content" "CHR '')'' \<notin> set content"
    and two: "length (splitWs (trim content)) = 2"
  shows "case parseExpression line of None \<Rightarrow> True
         | Some parsed \<Rightarrow> expressionToTriple parsed = None"
proof -
  note f = flat_line_facts [OF form np two]
  let ?tokens = "tokenize (trim content)"
  have np': "CHR ''('' \<notin> set (trim content)" "CHR '')'' \<notin> set (trim content)"
    using np set_trim_subset [of content] by auto
  have le: "length ?tokens \<le> 2"
    using tokenize_count [OF np'] two by simp
  show ?thesis
  proof (cases "length ?tokens < 2")
    case True
    with f show ?thesis by (simp add: Let_def)
  next
    case False
    with le have "length ?tokens = 2" by simp
    then obtain p a where toks: "?tokens = [p, a]"
      by (auto simp: length_Suc_conv numeral_2_eq_2)
    have "a \<in> set ?tokens" by (simp add: toks)
    then have "CHR ''('' \<notin> set a"
      using tokenize_chars [of a "trim content"] np' by auto
    then have "\<not> looksNested a"
      by (cases a) (auto simp: looksNested_def charAt_def)
    with f toks show ?thesis
      by (simp add: Let_def expressionToTriple_def isExprArg_def stringArgsOf_def)
  qed
qed

text \<open>
  C10. Take a text of one line which, trimmed, is an opening parenthesis, an interior
  without parentheses and a closing parenthesis, the interior splitting on white space
  into exactly two parts. Then \<open>validateSyntax\<close> reports it valid with no error,
  \<open>extractTriples\<close> returns no triple, and \<open>parse\<close> returns no node and no edge; what
  \<open>parse\<close> lists under \<open>errors\<close> has at most warnings in it.
\<close>

theorem flat_pair_valid_but_empty:
  assumes "CHR 0x0A \<notin> set mettaText"
    and "trim mettaText = ''('' @ content @ '')''"
    and "CHR ''('' \<notin> set content" and "CHR '')'' \<notin> set content"
    and "length (splitWs (trim content)) = 2"
  shows "vr_isValid (validateSyntax mettaText) \<and> vr_errors (validateSyntax mettaText) = []
       \<and> extractTriples mettaText = []
       \<and> pr_nodes (fst (parse now this mettaText)) = []
       \<and> pr_edges (fst (parse now this mettaText)) = []
       \<and> list_all (\<lambda>e. err_severity e = SevWarning) (pr_errors (fst (parse now this mettaText)))"
proof -
  have lines: "splitOn CHR 0x0A mettaText = [mettaText]"
    using assms(1) by (rule splitOn_no_separator)
  have errs: "vr_errors (validateSyntax mettaText) = []"
    using flat_line_no_error [OF assms(2-5), of 0]
    by (simp add: validateSyntax_def lines Let_def)
  then have valid: "vr_isValid (validateSyntax mettaText)"
    by (simp add: validateSyntax_def Let_def)
  have skip: "\<not> skippedLine (trim mettaText)"
    using flat_line_facts(2) [OF assms(2-5)] .
  have triples: "extractTriples mettaText = []"
    using flat_line_no_triple [OF assms(2-5)] skip
    by (auto simp add: extractTriples_def lines Let_def split: option.splits
        simp del: parseExpression.simps)
  have nodes: "pr_nodes (fst (parse now this mettaText)) = []"
    and edges: "pr_edges (fst (parse now this mettaText)) = []"
    by (simp_all add: parse_def triples transformTriplestoGraph_def
        detectBidirectionalRelationships_def Let_def)
  have warn: "list_all (\<lambda>e. err_severity e = SevWarning) (pr_errors (fst (parse now this mettaText)))"
    using validateSyntax_warnings [of mettaText] by (simp add: parse_def errs Let_def)
  from valid errs triples nodes edges warn show ?thesis by simp
qed

theorem flat_pair_valid_but_empty_witness:
  "CHR 0x0A \<notin> set ''(pred arg)''
   \<and> trim ''(pred arg)'' = ''('' @ ''pred arg'' @ '')''
   \<and> length (splitWs (trim ''pred arg'')) = 2
   \<and> vr_isValid (validateSyntax ''(pred arg)'')
   \<and> vr_errors (validateSyntax ''(pred arg)'') = []
   \<and> extractTriples ''(pred arg)'' = []
   \<and> pr_nodes (fst (parse 0 newMettaParserImpl ''(pred arg)'')) = []
   \<and> pr_edges (fst (parse 0 newMettaParserImpl ''(pred arg)'')) = []"
proof -
  have h: "CHR 0x0A \<notin> set ''(pred arg)''" "trim ''(pred arg)'' = ''('' @ ''pred arg'' @ '')''"
    "CHR ''('' \<notin> set ''pred arg''" "CHR '')'' \<notin> set ''pred arg''"
    "length (splitWs (trim ''pred arg'')) = 2"
    by (simp_all add: str_defs)
  from flat_pair_valid_but_empty [OF h, of 0 newMettaParserImpl] h
  show ?thesis by simp
qed

section \<open>The validator, the extractor and the call stack\<close>





















































end
